theory Spec2Isabelle
  imports Main "HOL-Library.AList"
begin

section \<open>LANDrop: discovery, transfer handshake and session bookkeeping\<close>

text \<open>
  A shallow embedding of the core of LANDrop (the \<^verbatim>\<open>landrop-plus\<close> tree, and the
  payload branch of the older \<^verbatim>\<open>landrop\<close> Receiver): the Receiver's per-socket
  two-phase protocol, the Sender's state machine, the FileTransferManager's session
  table and batch timer, and the BroadcastDiscoveryService's peer table.

  The program is single-threaded and event driven. Every slot and every connected
  lambda of the source is a function from the object's state to its new state; emitted
  signals are appended to a list held in the state, in emission order. Objects that
  the source addresses by pointer (sockets, files, Sender objects) live in stores
  indexed by natural numbers.
\<close>

subsection \<open>The library functions the source calls\<close>

text \<open>
  The source is written against Qt. The Qt functions it calls are modelled by what
  their documentation says, on byte strings: \<^verbatim>\<open>QByteArray::trimmed\<close>,
  \<^verbatim>\<open>split\<close> (empty parts are kept), \<^verbatim>\<open>startsWith\<close>,
  \<^verbatim>\<open>QIODevice::readLine\<close> and \<^verbatim>\<open>readAll\<close> on a buffered socket,
  \<^verbatim>\<open>toLongLong\<close> and \<^verbatim>\<open>toUShort\<close> (base 10, the result is 0 when the
  conversion fails), \<^verbatim>\<open>QString::number\<close> and \<^verbatim>\<open>QFileInfo::fileName\<close>.
\<close>

definition isSpace :: "char \<Rightarrow> bool" where
  "isSpace c = (c \<in> set [CHR '' '', CHR 0x09, CHR 0x0A, CHR 0x0B, CHR 0x0C, CHR 0x0D])"

definition trimmed :: "string \<Rightarrow> string" where
  "trimmed s = rev (dropWhile isSpace (rev (dropWhile isSpace s)))"

fun split_on :: "char \<Rightarrow> string \<Rightarrow> string list" where
  "split_on sep [] = [[]]"
| "split_on sep (c # cs) =
     (if c = sep then [] # split_on sep cs
      else (case split_on sep cs of p # ps \<Rightarrow> (c # p) # ps | [] \<Rightarrow> [[c]]))"

definition startsWith :: "string \<Rightarrow> string \<Rightarrow> bool" where
  "startsWith s p = (take (length p) s = p)"

definition readLine :: "string \<Rightarrow> string \<times> string" where
  "readLine buf =
     (case dropWhile (\<lambda>c. c \<noteq> CHR 0x0A) buf of
        [] \<Rightarrow> (buf, [])
      | nl # rest \<Rightarrow> (takeWhile (\<lambda>c. c \<noteq> CHR 0x0A) buf @ [nl], rest))"

definition isDigit :: "char \<Rightarrow> bool" where
  "isDigit c = (48 \<le> (of_char c :: nat) \<and> (of_char c :: nat) \<le> 57)"

fun digitsValue :: "int \<Rightarrow> string \<Rightarrow> int" where
  "digitsValue acc [] = acc"
| "digitsValue acc (c # cs) = digitsValue (acc * 10 + (int (of_char c) - 48)) cs"

text \<open>
  \<open>parseInteger\<close> is the conversion both \<^verbatim>\<open>toLongLong\<close> and \<^verbatim>\<open>toUShort\<close>
  start from: surrounding white space is skipped, one sign is allowed, and what is
  left must be a non-empty run of decimal digits. \<open>None\<close> is the failed conversion.
\<close>

definition parseInteger :: "string \<Rightarrow> int option" where
  "parseInteger s =
     (let t = trimmed s;
          neg = (t \<noteq> [] \<and> hd t = CHR ''-'');
          d = (if t \<noteq> [] \<and> (hd t = CHR ''-'' \<or> hd t = CHR ''+'') then tl t else t)
      in if d = [] \<or> \<not> list_all isDigit d then None
         else Some (if neg then - digitsValue 0 d else digitsValue 0 d))"

definition toLongLong :: "string \<Rightarrow> int" where
  "toLongLong s =
     (case parseInteger s of
        None \<Rightarrow> 0
      | Some v \<Rightarrow> if - (2 ^ 63) \<le> v \<and> v < 2 ^ 63 then v else 0)"

definition toUShort :: "string \<Rightarrow> nat" where
  "toUShort s =
     (case parseInteger s of
        None \<Rightarrow> 0
      | Some v \<Rightarrow> if 0 \<le> v \<and> v \<le> 65535 \<and> (trimmed s = [] \<or> hd (trimmed s) \<noteq> CHR ''-'') then nat v else 0)"

function natDigits :: "nat \<Rightarrow> string" where
  "natDigits n =
     (if n < 10 then [''0123456789'' ! n]
      else natDigits (n div 10) @ [''0123456789'' ! (n mod 10)])"
  by pat_completeness auto
termination
  by (relation "measure id") auto

declare natDigits.simps [simp del]

definition QString_number :: "int \<Rightarrow> string" where
  "QString_number i = (if i < 0 then CHR ''-'' # natDigits (nat (- i)) else natDigits (nat i))"

definition QFileInfo_fileName :: "string \<Rightarrow> string" where
  "QFileInfo_fileName path = rev (takeWhile (\<lambda>c. c \<noteq> CHR ''/'') (rev path))"

subsection \<open>Transfer status\<close>

datatype TransferStatus = WAITING | IN_PROGRESS | FINISHED | CANCELLED | ERROR

subsection \<open>Receiver\<close>

text \<open>
  \<^verbatim>\<open>network/receiver.h\<close>, \<^verbatim>\<open>network/receiver.cpp\<close>. A \<open>QTcpSocket\<close> of the
  Receiver is its peer address, the bytes that have arrived and were not read yet,
  and whether \<^verbatim>\<open>disconnectFromHost\<close> was called on it. A \<open>QFile\<close> is a destination
  file: whether it is open, the bytes written to it so far, and whether the device
  refuses writes (\<^verbatim>\<open>write\<close> returns -1).
\<close>

type_synonym socket_id = nat
type_synonym file_id = nat

record QTcpSocket =
  peerAddress :: string
  readBuffer :: string
  disconnectRequested :: bool

record QFile =
  isOpen :: bool
  contents :: string
  writeFails :: bool

record FileDefinition =
  fd_file :: "file_id option"
  fd_name :: string
  fd_size :: int
  fd_totalReceived :: int

datatype ReceiverSignal =
    R_fileTransferRequested string string socket_id
  | R_fileReceivedSuccessfully string
  | R_transferProgressUpdated string int
  | R_transferStatusUpdated string TransferStatus

text \<open>
  What the Receiver reads from outside: the percentage it computes in single
  precision floating point (left abstract, \<open>percentOf totalReceived size\<close>), how a
  relative path resolves inside the shared folder, and which paths are existing
  regular files.
\<close>

record ReceiverEnv =
  percentOf :: "int \<Rightarrow> int \<Rightarrow> int"
  sharedFilePath :: "string \<Rightarrow> string"
  isExistingFile :: "string \<Rightarrow> bool"

record Receiver =
  pendingFiles :: "socket_id \<rightharpoonup> FileDefinition"
  sockets :: "socket_id \<rightharpoonup> QTcpSocket"
  qfiles :: "file_id \<rightharpoonup> QFile"
  emitted :: "ReceiverSignal list"
  reverseSends :: "(string \<times> string \<times> nat) list"

definition disconnectFromHost :: "socket_id \<Rightarrow> Receiver \<Rightarrow> Receiver" where
  "disconnectFromHost s r =
     (case sockets r s of
        None \<Rightarrow> r
      | Some sk \<Rightarrow> r\<lparr>sockets := (sockets r)(s \<mapsto> sk\<lparr>disconnectRequested := True\<rparr>)\<rparr>)"

text \<open>\<^verbatim>\<open>if (file->isOpen()) file->close(); delete file;\<close>\<close>

definition closeAndDelete :: "file_id \<Rightarrow> Receiver \<Rightarrow> Receiver" where
  "closeAndDelete f r =
     (case qfiles r f of
        None \<Rightarrow> r
      | Some qf \<Rightarrow> r\<lparr>qfiles := (qfiles r)(f \<mapsto> qf\<lparr>isOpen := False\<rparr>)\<rparr>)"

text \<open>
  \<^verbatim>\<open>Receiver::handleDownloadRequest\<close>: when the requested path is an existing file
  of the shared folder, a new Sender is created and \<^verbatim>\<open>sendFile(fullPath, clientIP,
  clientPort)\<close> is called on it; the call is recorded in \<open>reverseSends\<close>.
\<close>

definition handleDownloadRequest ::
  "ReceiverEnv \<Rightarrow> string \<Rightarrow> string \<Rightarrow> string \<Rightarrow> nat \<Rightarrow> Receiver \<Rightarrow> Receiver" where
  "handleDownloadRequest env clientIP relativePath fileName clientPort r =
     (let fullPath = sharedFilePath env relativePath
      in if \<not> isExistingFile env fullPath then r
         else r\<lparr>reverseSends := reverseSends r @ [(fullPath, clientIP, clientPort)]\<rparr>)"

definition Receiver_onNewConnection :: "socket_id \<Rightarrow> string \<Rightarrow> Receiver \<Rightarrow> Receiver" where
  "Receiver_onNewConnection s addr r =
     r\<lparr>sockets := (sockets r)(s \<mapsto> \<lparr>peerAddress = addr, readBuffer = [], disconnectRequested = False\<rparr>)\<rparr>"

definition Receiver_onReadyRead :: "ReceiverEnv \<Rightarrow> socket_id \<Rightarrow> Receiver \<Rightarrow> Receiver" where
  "Receiver_onReadyRead env s r =
     (case sockets r s of
        None \<Rightarrow> r
      | Some sk \<Rightarrow>
         (case pendingFiles r s of
            None \<Rightarrow>
              (let line = trimmed (fst (readLine (readBuffer sk)));
                   r1 = r\<lparr>sockets := (sockets r)(s \<mapsto> sk\<lparr>readBuffer := snd (readLine (readBuffer sk))\<rparr>)\<rparr>
               in if line = [] \<or> CHR ''|'' \<notin> set line then disconnectFromHost s r1
                  else if startsWith line ''DOWNLOAD_REQUEST|'' then
                    (let parts = split_on (CHR ''|'') line
                     in disconnectFromHost s
                          (if 4 \<le> length parts
                           then handleDownloadRequest env (peerAddress sk) (parts ! 1) (parts ! 2)
                                  (toUShort (parts ! 3)) r1
                           else r1))
                  else
                    (let data = split_on (CHR ''|'') line
                     in if length data < 2 then disconnectFromHost s r1
                        else
                          (let fileName = data ! 0;
                               fileSize = toLongLong (data ! 1)
                           in if fileName = [] \<or> fileSize < 0 then disconnectFromHost s r1
                              else r1\<lparr>pendingFiles := (pendingFiles r1)(s \<mapsto>
                                          \<lparr>fd_file = None, fd_name = fileName,
                                           fd_size = fileSize, fd_totalReceived = 0\<rparr>),
                                        emitted := emitted r1 @
                                          [R_fileTransferRequested fileName (QString_number fileSize) s]\<rparr>)))
          | Some fileInfo \<Rightarrow>
              (case fd_file fileInfo of
                 None \<Rightarrow> r
               | Some f \<Rightarrow>
                  (case qfiles r f of
                     None \<Rightarrow> r
                   | Some qf \<Rightarrow>
                      if \<not> isOpen qf then r
                      else
                        (let data = readBuffer sk
                         in if data = [] then r
                            else
                              (let r1 = r\<lparr>sockets := (sockets r)(s \<mapsto> sk\<lparr>readBuffer := []\<rparr>)\<rparr>
                               in if writeFails qf
                                  then disconnectFromHost s
                                         (r1\<lparr>emitted := emitted r1 @
                                            [R_transferStatusUpdated (fd_name fileInfo) CANCELLED]\<rparr>)
                                  else
                                    (let total = fd_totalReceived fileInfo + int (length data);
                                         r2 = r1\<lparr>qfiles := (qfiles r1)(f \<mapsto> qf\<lparr>contents := contents qf @ data\<rparr>),
                                                 pendingFiles := (pendingFiles r1)(s \<mapsto>
                                                   fileInfo\<lparr>fd_totalReceived := total\<rparr>),
                                                 emitted := emitted r1 @
                                                   [R_transferProgressUpdated (fd_name fileInfo)
                                                      (percentOf env total (fd_size fileInfo))]\<rparr>
                                     in if fd_size fileInfo \<le> total then disconnectFromHost s r2
                                        else r2)))))))"

definition Receiver_onDisconnected :: "socket_id \<Rightarrow> Receiver \<Rightarrow> Receiver" where
  "Receiver_onDisconnected s r =
     (case sockets r s of
        None \<Rightarrow> r
      | Some sk \<Rightarrow>
         (let r3 =
            (case pendingFiles r s of
               None \<Rightarrow> r
             | Some fileInfo \<Rightarrow>
                (let r1 = (case fd_file fileInfo of None \<Rightarrow> r | Some f \<Rightarrow> closeAndDelete f r);
                     r2 = (if fd_totalReceived fileInfo < fd_size fileInfo
                           then r1\<lparr>emitted := emitted r1 @
                                  [R_transferStatusUpdated (fd_name fileInfo) CANCELLED]\<rparr>
                           else r1\<lparr>emitted := emitted r1 @
                                  [R_fileReceivedSuccessfully (QFileInfo_fileName (fd_name fileInfo)),
                                   R_transferStatusUpdated (fd_name fileInfo) FINISHED]\<rparr>)
                 in r2\<lparr>pendingFiles := (pendingFiles r2)(s := None)\<rparr>))
          in r3\<lparr>sockets := (sockets r3)(s := None)\<rparr>))"

definition setFile :: "socket_id option \<Rightarrow> file_id option \<Rightarrow> Receiver \<Rightarrow> Receiver" where
  "setFile socket file r =
     (case file of
        None \<Rightarrow> r
      | Some f \<Rightarrow>
         (case socket of
            None \<Rightarrow> closeAndDelete f r
          | Some s \<Rightarrow>
             (case pendingFiles r s of
                None \<Rightarrow> closeAndDelete f r
              | Some fileInfo \<Rightarrow>
                 (let r1 = (case fd_file fileInfo of None \<Rightarrow> r | Some old \<Rightarrow> closeAndDelete old r)
                  in r1\<lparr>pendingFiles := (pendingFiles r1)(s \<mapsto> fileInfo\<lparr>fd_file := Some f\<rparr>)\<rparr>))))"

text \<open>
  Bytes arriving on a socket are appended to what the socket holds unread, and the
  socket's \<^verbatim>\<open>readyRead\<close> signal runs the slot.
\<close>

definition socketReceives :: "ReceiverEnv \<Rightarrow> socket_id \<Rightarrow> string \<Rightarrow> Receiver \<Rightarrow> Receiver" where
  "socketReceives env s bytes r =
     (case sockets r s of
        None \<Rightarrow> r
      | Some sk \<Rightarrow>
          Receiver_onReadyRead env s
            (r\<lparr>sockets := (sockets r)(s \<mapsto> sk\<lparr>readBuffer := readBuffer sk @ bytes\<rparr>)\<rparr>))"


text \<open>
  What reaches the Receiver from outside: a connection is accepted, bytes arrive on a
  socket, a socket's \<^verbatim>\<open>disconnected\<close> signal fires, and the user interface
  opens a destination file and hands it over with \<^verbatim>\<open>setFile\<close>.
\<close>

datatype ReceiverInput =
    NewConnection socket_id string
  | BytesArrive socket_id string
  | Disconnected socket_id
  | UiOpensFile file_id QFile
  | UiSetFile "socket_id option" "file_id option"

fun receiverStep :: "ReceiverEnv \<Rightarrow> Receiver \<Rightarrow> ReceiverInput \<Rightarrow> Receiver" where
  "receiverStep env r (NewConnection s addr) =
     (if sockets r s = None then Receiver_onNewConnection s addr r else r)"
| "receiverStep env r (BytesArrive s bytes) = socketReceives env s bytes r"
| "receiverStep env r (Disconnected s) = Receiver_onDisconnected s r"
| "receiverStep env r (UiOpensFile f qf) =
     (if qfiles r f = None then r\<lparr>qfiles := (qfiles r)(f \<mapsto> qf)\<rparr> else r)"
| "receiverStep env r (UiSetFile socket file) = setFile socket file r"

definition receiverRun :: "ReceiverEnv \<Rightarrow> Receiver \<Rightarrow> ReceiverInput list \<Rightarrow> Receiver" where
  "receiverRun env r ins = foldl (receiverStep env) r ins"

subsection \<open>The payload branch of the older Receiver\<close>

text \<open>
  \<^verbatim>\<open>landrop/network/receiver.cpp\<close>, \<^verbatim>\<open>Receiver::onReadyRead\<close>. Its metadata
  branch indexes \<^verbatim>\<open>data[1]\<close> without a check, so a first line without a separator
  ends the process: the result is \<open>None\<close>. Its payload branch reads everything the
  socket holds before it looks at the file handle, and ignores what \<^verbatim>\<open>write\<close>
  returns.
\<close>

definition Legacy_onReadyRead :: "ReceiverEnv \<Rightarrow> socket_id \<Rightarrow> Receiver \<Rightarrow> Receiver option" where
  "Legacy_onReadyRead env s r =
     (case sockets r s of
        None \<Rightarrow> Some r
      | Some sk \<Rightarrow>
         (case pendingFiles r s of
            None \<Rightarrow>
              (let data = split_on (CHR ''|'') (trimmed (fst (readLine (readBuffer sk))));
                   r1 = r\<lparr>sockets := (sockets r)(s \<mapsto> sk\<lparr>readBuffer := snd (readLine (readBuffer sk))\<rparr>)\<rparr>
               in if length data < 2 then None
                  else
                    (let fileName = data ! 0;
                         fileSize = toLongLong (data ! 1)
                     in Some (r1\<lparr>pendingFiles := (pendingFiles r1)(s \<mapsto>
                                   \<lparr>fd_file = None, fd_name = fileName,
                                    fd_size = fileSize, fd_totalReceived = 0\<rparr>),
                                 emitted := emitted r1 @
                                   [R_fileTransferRequested fileName (QString_number fileSize) s]\<rparr>)))
          | Some fileInfo \<Rightarrow>
              (let data = readBuffer sk;
                   total = fd_totalReceived fileInfo + int (length data);
                   r1 = r\<lparr>sockets := (sockets r)(s \<mapsto> sk\<lparr>readBuffer := []\<rparr>),
                          pendingFiles := (pendingFiles r)(s \<mapsto> fileInfo\<lparr>fd_totalReceived := total\<rparr>)\<rparr>;
                   r2 = (case fd_file fileInfo of
                           None \<Rightarrow> r1
                         | Some f \<Rightarrow>
                            (case qfiles r1 f of
                               None \<Rightarrow> r1
                             | Some qf \<Rightarrow>
                                if isOpen qf \<and> \<not> writeFails qf
                                then r1\<lparr>qfiles := (qfiles r1)(f \<mapsto> qf\<lparr>contents := contents qf @ data\<rparr>)\<rparr>
                                else r1))
               in Some (r2\<lparr>emitted := emitted r2 @
                          [R_transferProgressUpdated (fd_name fileInfo)
                             (percentOf env total (fd_size fileInfo))]\<rparr>))))"

definition Legacy_socketReceives ::
  "ReceiverEnv \<Rightarrow> socket_id \<Rightarrow> string \<Rightarrow> Receiver \<Rightarrow> Receiver option" where
  "Legacy_socketReceives env s bytes r =
     (case sockets r s of
        None \<Rightarrow> Some r
      | Some sk \<Rightarrow>
          Legacy_onReadyRead env s
            (r\<lparr>sockets := (sockets r)(s \<mapsto> sk\<lparr>readBuffer := readBuffer sk @ bytes\<rparr>)\<rparr>))"


subsection \<open>Sender\<close>

text \<open>
  \<^verbatim>\<open>network/sender.h\<close>, \<^verbatim>\<open>network/sender.cpp\<close>. The Sender owns one socket and
  one source file. The socket records its state, the bytes received and not read
  yet, the bytes handed to \<^verbatim>\<open>write\<close>, and whether the chunk lambda of
  \<^verbatim>\<open>onReadyRead\<close> is connected to its \<^verbatim>\<open>bytesWritten\<close> signal. The source
  file is a path, whether it is open, and the read position. The file system is
  read through the environment: the bytes of every existing file, whether opening
  a path for reading succeeds, and \<^verbatim>\<open>Config::getBufferSize()\<close>.
\<close>

datatype SocketState = UnconnectedState | ConnectingState | ConnectedState | ClosingState

record SenderSocket =
  ss_state :: SocketState
  ss_peer :: "string \<times> nat"
  ss_readBuffer :: string
  ss_written :: string
  ss_streaming :: bool

record SourceFile =
  sf_path :: string
  sf_isOpen :: bool
  sf_pos :: nat

datatype SenderSignal =
    S_progressUpdated int
  | S_transferAccepted
  | S_transferRefused
  | S_transferFinished
  | S_transferError

record SenderEnv =
  fileContents :: "string \<rightharpoonup> string"
  canOpen :: "string \<Rightarrow> bool"
  bufferSize :: nat

record Sender =
  s_socket :: "SenderSocket option"
  s_file :: "SourceFile option"
  bytesSent :: int
  s_port :: nat
  connectionTimer :: bool
  responseTimer :: bool
  s_emitted :: "SenderSignal list"

definition fileBytes :: "SenderEnv \<Rightarrow> string \<Rightarrow> string" where
  "fileBytes env path = (case fileContents env path of None \<Rightarrow> [] | Some bytes \<Rightarrow> bytes)"

definition fileSize :: "SenderEnv \<Rightarrow> string \<Rightarrow> int" where
  "fileSize env path = int (length (fileBytes env path))"

text \<open>
  \<^verbatim>\<open>static_cast<int>(bytesSent * 100 / file->size())\<close>: the product and the
  quotient are 64-bit signed (\<^verbatim>\<open>qint64\<close>), the quotient truncates towards zero,
  and the cast keeps the low 32 bits.
\<close>

definition wrap64 :: "int \<Rightarrow> int" where
  "wrap64 x = (x + 2 ^ 63) mod 2 ^ 64 - 2 ^ 63"

definition wrap32 :: "int \<Rightarrow> int" where
  "wrap32 x = (x + 2 ^ 31) mod 2 ^ 32 - 2 ^ 31"

definition truncDiv :: "int \<Rightarrow> int \<Rightarrow> int" where
  "truncDiv a b = sgn a * sgn b * (\<bar>a\<bar> div \<bar>b\<bar>)"

definition progressPercent :: "int \<Rightarrow> int \<Rightarrow> int" where
  "progressPercent sent whole = wrap32 (truncDiv (wrap64 (sent * 100)) whole)"

definition newSender :: "nat \<Rightarrow> Sender" where
  "newSender configPort =
     \<lparr>s_socket = None, s_file = None, bytesSent = 0, s_port = configPort,
      connectionTimer = False, responseTimer = False, s_emitted = []\<rparr>"

text \<open>
  \<^verbatim>\<open>Sender::reset\<close>. The socket's signals are blocked, it is disconnected and
  scheduled for deletion, and the pointer is cleared; the file is closed and
  deleted.
\<close>

definition reset :: "Sender \<Rightarrow> Sender" where
  "reset s = s\<lparr>connectionTimer := False, responseTimer := False,
               s_socket := None, s_file := None, bytesSent := 0\<rparr>"

definition Sender_sendFile :: "SenderEnv \<Rightarrow> string \<Rightarrow> string \<Rightarrow> nat \<Rightarrow> Sender \<Rightarrow> Sender" where
  "Sender_sendFile env filePath receiverIP customPort s =
     (let s1 = (reset s)\<lparr>s_port := customPort,
                          s_file := Some \<lparr>sf_path = filePath, sf_isOpen = False, sf_pos = 0\<rparr>\<rparr>
      in if fileContents env filePath = None then s1
         else s1\<lparr>s_socket := Some \<lparr>ss_state = ConnectingState, ss_peer = (receiverIP, customPort),
                                   ss_readBuffer = [], ss_written = [], ss_streaming = False\<rparr>,
                 connectionTimer := True\<rparr>)"

text \<open>\<^verbatim>\<open>socket->write(bytes)\<close> and its result.\<close>

definition socketWrite :: "string \<Rightarrow> SenderSocket \<Rightarrow> SenderSocket \<times> int" where
  "socketWrite bytes sk =
     (if ss_state sk = UnconnectedState then (sk, - 1)
      else (sk\<lparr>ss_written := ss_written sk @ bytes\<rparr>, int (length bytes)))"

definition Sender_disconnectFromHost :: "SenderSocket \<Rightarrow> SenderSocket" where
  "Sender_disconnectFromHost sk =
     (if ss_state sk \<noteq> UnconnectedState then sk\<lparr>ss_state := ClosingState\<rparr> else sk)"

definition Sender_onConnected :: "SenderEnv \<Rightarrow> Sender \<Rightarrow> Sender" where
  "Sender_onConnected env s =
     (case (s_socket s, s_file s) of
        (Some sk, Some f) \<Rightarrow>
          (let filename = QFileInfo_fileName (sf_path f);
               filesize = QString_number (fileSize env (sf_path f));
               sk1 = fst (socketWrite (filename @ ''|'' @ filesize @ [CHR 0x0A]) sk)
           in s\<lparr>connectionTimer := False, s_socket := Some sk1, responseTimer := True\<rparr>)
      | _ \<Rightarrow> s)"

text \<open>\<^verbatim>\<open>file->read(Config::getBufferSize())\<close>: the chunk and the file after it.\<close>

definition readChunk :: "SenderEnv \<Rightarrow> SourceFile \<Rightarrow> string \<times> SourceFile" where
  "readChunk env f =
     (let chunk = take (bufferSize env) (drop (sf_pos f) (fileBytes env (sf_path f)))
      in (chunk, f\<lparr>sf_pos := sf_pos f + length chunk\<rparr>))"

definition atEnd :: "SenderEnv \<Rightarrow> SourceFile \<Rightarrow> bool" where
  "atEnd env f = (length (fileBytes env (sf_path f)) \<le> sf_pos f)"

definition Sender_onReadyRead :: "SenderEnv \<Rightarrow> Sender \<Rightarrow> Sender" where
  "Sender_onReadyRead env s =
     (case (s_socket s, s_file s) of
        (Some sk, Some f) \<Rightarrow>
          (let response = trimmed (fst (readLine (ss_readBuffer sk)));
               sk1 = sk\<lparr>ss_readBuffer := snd (readLine (ss_readBuffer sk))\<rparr>
           in if response = ''OK'' then
                (let s1 = s\<lparr>responseTimer := False, s_emitted := s_emitted s @ [S_transferAccepted]\<rparr>
                 in if sf_isOpen f \<or> \<not> canOpen env (sf_path f) then reset s1
                    else
                      (let f1 = f\<lparr>sf_isOpen := True, sf_pos := 0\<rparr>;
                           chunk = fst (readChunk env f1);
                           f2 = snd (readChunk env f1);
                           written = socketWrite chunk (sk1\<lparr>ss_streaming := True\<rparr>);
                           s2 = s1\<lparr>bytesSent := 0 + int (length chunk),
                                   s_file := Some f2, s_socket := Some (fst written)\<rparr>
                       in if snd written < 1
                          then s2\<lparr>s_emitted := s_emitted s2 @ [S_transferError]\<rparr>
                          else s2))
              else if response = ''NO'' then
                s\<lparr>responseTimer := False, s_socket := Some (Sender_disconnectFromHost sk1),
                  s_emitted := s_emitted s @ [S_transferRefused]\<rparr>
              else
                s\<lparr>responseTimer := False, s_socket := Some (Sender_disconnectFromHost sk1),
                  s_emitted := s_emitted s @ [S_transferError]\<rparr>)
      | _ \<Rightarrow> s)"

text \<open>The lambda connected to \<^verbatim>\<open>bytesWritten\<close> in \<^verbatim>\<open>Sender::onReadyRead\<close>.\<close>

definition Sender_onBytesWritten :: "SenderEnv \<Rightarrow> Sender \<Rightarrow> Sender" where
  "Sender_onBytesWritten env s =
     (case (s_socket s, s_file s) of
        (Some sk, Some f) \<Rightarrow>
          if \<not> sf_isOpen f then s
          else if \<not> atEnd env f then
            (let chunk = fst (readChunk env f);
                 f1 = snd (readChunk env f);
                 sent = bytesSent s + int (length chunk)
             in s\<lparr>bytesSent := sent, s_file := Some f1,
                  s_emitted := s_emitted s @
                    [S_progressUpdated (progressPercent sent (fileSize env (sf_path f)))],
                  s_socket := Some (fst (socketWrite chunk sk))\<rparr>)
          else
            s\<lparr>s_emitted := s_emitted s @ [S_transferFinished],
              s_file := Some (f\<lparr>sf_isOpen := False\<rparr>),
              s_socket := Some (Sender_disconnectFromHost sk)\<rparr>
      | _ \<Rightarrow> s)"

text \<open>
  What reaches the Sender from outside. A signal of the socket is delivered only
  while the Sender holds the socket (\<^verbatim>\<open>reset\<close> blocks its signals and clears the
  pointer): \<^verbatim>\<open>connected\<close> while connecting, \<^verbatim>\<open>readyRead\<close> while connected (a
  socket reads nothing more once \<^verbatim>\<open>disconnectFromHost\<close> was called on it),
  \<^verbatim>\<open>bytesWritten\<close> once the lambda is connected, \<^verbatim>\<open>disconnected\<close> and
  \<^verbatim>\<open>errorOccurred\<close> at any time. A timer fires only while it is running, and is
  single-shot.
\<close>

datatype SenderInput =
    SocketConnected
  | SocketReadyRead string
  | SocketBytesWritten
  | SocketDisconnected
  | SocketError
  | ConnectionTimeout
  | ResponseTimeout

fun senderStep :: "SenderEnv \<Rightarrow> Sender \<Rightarrow> SenderInput \<Rightarrow> Sender" where
  "senderStep env s SocketConnected =
     (case s_socket s of
        None \<Rightarrow> s
      | Some sk \<Rightarrow>
          if ss_state sk = ConnectingState
          then Sender_onConnected env (s\<lparr>s_socket := Some (sk\<lparr>ss_state := ConnectedState\<rparr>)\<rparr>)
          else s)"
| "senderStep env s (SocketReadyRead bytes) =
     (case s_socket s of
        None \<Rightarrow> s
      | Some sk \<Rightarrow>
          if ss_state sk = ConnectedState
          then Sender_onReadyRead env
                 (s\<lparr>s_socket := Some (sk\<lparr>ss_readBuffer := ss_readBuffer sk @ bytes\<rparr>)\<rparr>)
          else s)"
| "senderStep env s SocketBytesWritten =
     (case s_socket s of
        None \<Rightarrow> s
      | Some sk \<Rightarrow>
          if ss_streaming sk \<and> ss_state sk \<noteq> UnconnectedState
          then Sender_onBytesWritten env s
          else s)"
| "senderStep env s SocketDisconnected =
     (case s_socket s of None \<Rightarrow> s | Some sk \<Rightarrow> reset s)"
| "senderStep env s SocketError =
     (case s_socket s of
        None \<Rightarrow> s
      | Some sk \<Rightarrow> s\<lparr>s_emitted := s_emitted s @ [S_transferError]\<rparr>)"
| "senderStep env s ConnectionTimeout =
     (if connectionTimer s then reset (s\<lparr>s_emitted := s_emitted s @ [S_transferError]\<rparr>) else s)"
| "senderStep env s ResponseTimeout =
     (if responseTimer s then reset (s\<lparr>s_emitted := s_emitted s @ [S_transferError]\<rparr>) else s)"

definition senderRun :: "SenderEnv \<Rightarrow> Sender \<Rightarrow> SenderInput list \<Rightarrow> Sender" where
  "senderRun env s ins = foldl (senderStep env) s ins"

definition progressValues :: "SenderSignal list \<Rightarrow> int list" where
  "progressValues sigs = concat (map (\<lambda>sig. case sig of S_progressUpdated p \<Rightarrow> [p] | _ \<Rightarrow> []) sigs)"


subsection \<open>Discovered users\<close>

text \<open>
  \<^verbatim>\<open>services/broadcastdiscoveryservice.h\<close>, \<^verbatim>\<open>struct LANDropUser\<close>. The
  \<^verbatim>\<open>QJsonArray\<close> of shared files is the list of its elements, each kept as text.
\<close>

record LANDropUser =
  ipAddress :: string
  hostname :: string
  transferPort :: nat
  version :: string
  sharedFiles :: "string list"

subsection \<open>FileTransferManager\<close>

text \<open>
  \<^verbatim>\<open>services/filetransfermanager.h\<close>, \<^verbatim>\<open>services/filetransfermanager.cpp\<close>.
  Sender objects live in \<open>senders\<close>, at addresses handed out in increasing order;
  \<open>wired\<close> tells whether a Sender's signals are still connected to the manager's
  slots (\<^verbatim>\<open>sender->disconnect()\<close> clears it). The two \<^verbatim>\<open>QMap\<close>s of the pending
  batch are association lists; \<^verbatim>\<open>insert\<close> replaces the value of a key that is
  present. The batch timer is the time in milliseconds at which it is due, when it
  runs. A \<^verbatim>\<open>QTimer::singleShot\<close> cleanup is kept in \<open>deferred\<close> with its delay,
  its Sender and its session.
\<close>

type_synonym sender_id = nat

record TransferSession =
  ts_id :: int
  ts_fileName :: string
  ts_recipientIP :: string
  ts_status :: TransferStatus
  ts_progress :: int
  ts_sender :: "sender_id option"

datatype ManagerSignal =
    M_transferSessionCreated int string string
  | M_transferProgressUpdated int int
  | M_transferStatusChanged int TransferStatus
  | M_batchTransferRequested "(string \<times> int) list" "(string \<times> socket_id) list"

record FileTransferManager =
  sessions :: "int \<rightharpoonup> TransferSession"
  senderToSession :: "sender_id \<rightharpoonup> int"
  receivedFileToSession :: "string \<rightharpoonup> int"
  batchTimer :: "int option"
  pendingBatchFiles :: "(string \<times> int) list"
  pendingBatchSockets :: "(string \<times> socket_id) list"
  nextSessionId :: int
  senders :: "sender_id \<rightharpoonup> Sender"
  wired :: "sender_id \<Rightarrow> bool"
  nextSender :: sender_id
  deferred :: "(nat \<times> sender_id \<times> int) list"
  m_emitted :: "ManagerSignal list"

definition newFileTransferManager :: FileTransferManager where
  "newFileTransferManager =
     \<lparr>sessions = Map.empty, senderToSession = Map.empty, receivedFileToSession = Map.empty,
      batchTimer = None, pendingBatchFiles = [], pendingBatchSockets = [],
      nextSessionId = 1, senders = Map.empty, wired = (\<lambda>s. False), nextSender = 0,
      deferred = [], m_emitted = []\<rparr>"

definition createTransferSession ::
  "string \<Rightarrow> string \<Rightarrow> FileTransferManager \<Rightarrow> int \<times> FileTransferManager" where
  "createTransferSession fileName recipientIP m =
     (let sessionId = nextSessionId m;
          session = \<lparr>ts_id = sessionId, ts_fileName = fileName, ts_recipientIP = recipientIP,
                     ts_status = WAITING, ts_progress = 0, ts_sender = None\<rparr>
      in (sessionId,
          m\<lparr>nextSessionId := sessionId + 1,
            sessions := (sessions m)(sessionId \<mapsto> session),
            m_emitted := m_emitted m @ [M_transferSessionCreated sessionId fileName recipientIP]\<rparr>))"

definition updateSessionStatus :: "int \<Rightarrow> TransferStatus \<Rightarrow> FileTransferManager \<Rightarrow> FileTransferManager" where
  "updateSessionStatus sessionId status m =
     (case sessions m sessionId of
        None \<Rightarrow> m
      | Some session \<Rightarrow>
          m\<lparr>sessions := (sessions m)(sessionId \<mapsto> session\<lparr>ts_status := status\<rparr>),
            m_emitted := m_emitted m @ [M_transferStatusChanged sessionId status]\<rparr>)"

definition updateSessionProgress :: "int \<Rightarrow> int \<Rightarrow> FileTransferManager \<Rightarrow> FileTransferManager" where
  "updateSessionProgress sessionId progress m =
     (case sessions m sessionId of
        None \<Rightarrow> m
      | Some session \<Rightarrow>
          m\<lparr>sessions := (sessions m)(sessionId \<mapsto> session\<lparr>ts_progress := progress\<rparr>),
            m_emitted := m_emitted m @ [M_transferProgressUpdated sessionId progress]\<rparr>)"

text \<open>
  One turn of the inner loop of \<^verbatim>\<open>sendFilesToUsers\<close>: the session is created
  first, then the Sender, and \<^verbatim>\<open>sendFile\<close> is called last.
\<close>

definition sendFileToUser ::
  "SenderEnv \<Rightarrow> nat \<Rightarrow> string \<Rightarrow> LANDropUser \<Rightarrow> FileTransferManager \<Rightarrow> FileTransferManager" where
  "sendFileToUser env configPort filePath user m =
     (let created = createTransferSession
                      (QFileInfo_fileName filePath @ '' @'' @ ipAddress user) (ipAddress user) m;
          sessionId = fst created;
          m1 = snd created;
          sender = nextSender m1;
          m2 = m1\<lparr>nextSender := sender + 1,
                  sessions := (case sessions m1 sessionId of
                                 None \<Rightarrow> sessions m1
                               | Some session \<Rightarrow>
                                   (sessions m1)(sessionId \<mapsto> session\<lparr>ts_sender := Some sender\<rparr>)),
                  senderToSession := (senderToSession m1)(sender \<mapsto> sessionId),
                  wired := (wired m1)(sender := True)\<rparr>
      in m2\<lparr>senders := (senders m2)(sender \<mapsto>
                Sender_sendFile env filePath (ipAddress user) (transferPort user)
                  (newSender configPort))\<rparr>)"

definition sendFilesToUsers ::
  "SenderEnv \<Rightarrow> nat \<Rightarrow> string list \<Rightarrow> LANDropUser list \<Rightarrow> FileTransferManager \<Rightarrow> FileTransferManager" where
  "sendFilesToUsers env configPort filePaths recipients m =
     foldl (\<lambda>m1 filePath. foldl (\<lambda>m2 user. sendFileToUser env configPort filePath user m2) m1 recipients)
       m filePaths"

text \<open>
  The cleanup lambda of the three terminal slots, run when its timer fires. The
  \<^verbatim>\<open>QPointer\<close> is null when the Sender was deleted meanwhile.
\<close>

definition runCleanup :: "sender_id \<Rightarrow> int \<Rightarrow> FileTransferManager \<Rightarrow> FileTransferManager" where
  "runCleanup sender sessionId m =
     (case senders m sender of
        Some obj \<Rightarrow>
          m\<lparr>senderToSession := (senderToSession m)(sender := None),
            sessions := (sessions m)(sessionId := None),
            senders := (senders m)(sender := None)\<rparr>
      | None \<Rightarrow>
          (let m1 = m\<lparr>sessions := (sessions m)(sessionId := None)\<rparr>
           in case find (\<lambda>k. senderToSession m1 k = Some sessionId) [0..<nextSender m1] of
                None \<Rightarrow> m1
              | Some k \<Rightarrow> m1\<lparr>senderToSession := (senderToSession m1)(k := None)\<rparr>))"

definition scheduleCleanup :: "nat \<Rightarrow> sender_id \<Rightarrow> int \<Rightarrow> FileTransferManager \<Rightarrow> FileTransferManager" where
  "scheduleCleanup delay sender sessionId m =
     m\<lparr>wired := (wired m)(sender := False), deferred := deferred m @ [(delay, sender, sessionId)]\<rparr>"

definition onSenderTransferAccepted :: "sender_id \<Rightarrow> FileTransferManager \<Rightarrow> FileTransferManager" where
  "onSenderTransferAccepted sender m =
     (case senderToSession m sender of
        None \<Rightarrow> m
      | Some sessionId \<Rightarrow> updateSessionStatus sessionId IN_PROGRESS m)"

definition onSenderTransferRefused :: "sender_id \<Rightarrow> FileTransferManager \<Rightarrow> FileTransferManager" where
  "onSenderTransferRefused sender m =
     (case senderToSession m sender of
        None \<Rightarrow> m
      | Some sessionId \<Rightarrow>
          scheduleCleanup 500 sender sessionId (updateSessionStatus sessionId CANCELLED m))"

definition onSenderProgressUpdated :: "sender_id \<Rightarrow> int \<Rightarrow> FileTransferManager \<Rightarrow> FileTransferManager" where
  "onSenderProgressUpdated sender progress m =
     (case senderToSession m sender of
        None \<Rightarrow> m
      | Some sessionId \<Rightarrow> updateSessionProgress sessionId progress m)"

definition onSenderTransferFinished :: "sender_id \<Rightarrow> FileTransferManager \<Rightarrow> FileTransferManager" where
  "onSenderTransferFinished sender m =
     (case senderToSession m sender of
        None \<Rightarrow> m
      | Some sessionId \<Rightarrow>
          scheduleCleanup 100 sender sessionId
            (if sessions m sessionId \<noteq> None then updateSessionStatus sessionId FINISHED m else m))"

definition onSenderTransferError :: "sender_id \<Rightarrow> FileTransferManager \<Rightarrow> FileTransferManager" where
  "onSenderTransferError sender m =
     (case senderToSession m sender of
        None \<Rightarrow> m
      | Some sessionId \<Rightarrow>
          scheduleCleanup 100 sender sessionId
            (case sessions m sessionId of
               None \<Rightarrow> m
             | Some session \<Rightarrow>
                 if ts_status session \<noteq> FINISHED \<and> ts_status session \<noteq> CANCELLED
                 then updateSessionStatus sessionId ERROR m
                 else m))"

text \<open>The five \<^verbatim>\<open>connect\<close> calls of \<^verbatim>\<open>sendFilesToUsers\<close>.\<close>

fun onSenderSignal :: "sender_id \<Rightarrow> SenderSignal \<Rightarrow> FileTransferManager \<Rightarrow> FileTransferManager" where
  "onSenderSignal sender S_transferAccepted m = onSenderTransferAccepted sender m"
| "onSenderSignal sender S_transferRefused m = onSenderTransferRefused sender m"
| "onSenderSignal sender (S_progressUpdated p) m = onSenderProgressUpdated sender p m"
| "onSenderSignal sender S_transferFinished m = onSenderTransferFinished sender m"
| "onSenderSignal sender S_transferError m = onSenderTransferError sender m"

definition deliverSenderSignal ::
  "sender_id \<Rightarrow> FileTransferManager \<Rightarrow> SenderSignal \<Rightarrow> FileTransferManager" where
  "deliverSenderSignal sender m sig =
     (if wired m sender \<and> senders m sender \<noteq> None then onSenderSignal sender sig m else m)"

text \<open>
  An input of a Sender the manager created: the Sender takes its step, and the
  signals it emitted in that step reach the manager's slots in order.
\<close>

definition senderInput ::
  "SenderEnv \<Rightarrow> sender_id \<Rightarrow> SenderInput \<Rightarrow> FileTransferManager \<Rightarrow> FileTransferManager" where
  "senderInput env sender i m =
     (case senders m sender of
        None \<Rightarrow> m
      | Some obj \<Rightarrow>
          (let obj1 = senderStep env obj i;
               fresh = drop (length (s_emitted obj)) (s_emitted obj1)
           in foldl (deliverSenderSignal sender) (m\<lparr>senders := (senders m)(sender \<mapsto> obj1)\<rparr>) fresh))"

text \<open>
  \<^verbatim>\<open>onReceiverFileTransferRequested\<close> at time \<open>now\<close>, and the lambda connected to
  the batch timer in the constructor.
\<close>

definition onReceiverFileTransferRequested ::
  "int \<Rightarrow> string \<Rightarrow> string \<Rightarrow> socket_id \<Rightarrow> FileTransferManager \<Rightarrow> FileTransferManager" where
  "onReceiverFileTransferRequested now fileName fileSizeText socket m =
     (let m1 = m\<lparr>pendingBatchFiles := AList.update fileName (toLongLong fileSizeText) (pendingBatchFiles m),
                 pendingBatchSockets := AList.update fileName socket (pendingBatchSockets m),
                 batchTimer := Some (now + 200)\<rparr>;
          created = createTransferSession fileName ''Incoming'' m1;
          sessionId = fst created;
          m2 = snd created
      in updateSessionStatus sessionId WAITING
           (m2\<lparr>receivedFileToSession := (receivedFileToSession m2)(fileName \<mapsto> sessionId)\<rparr>))"

definition onBatchTimeout :: "FileTransferManager \<Rightarrow> FileTransferManager" where
  "onBatchTimeout m =
     m\<lparr>m_emitted := m_emitted m @
          [M_batchTransferRequested (pendingBatchFiles m) (pendingBatchSockets m)],
       pendingBatchFiles := [], pendingBatchSockets := []\<rparr>"

text \<open>The event loop at time \<open>now\<close>: a running single-shot timer that is due fires once.\<close>

definition timePasses :: "int \<Rightarrow> FileTransferManager \<Rightarrow> FileTransferManager" where
  "timePasses now m =
     (case batchTimer m of
        None \<Rightarrow> m
      | Some due \<Rightarrow> if due \<le> now then onBatchTimeout (m\<lparr>batchTimer := None\<rparr>) else m)"

definition onReceiverProgressUpdated :: "string \<Rightarrow> int \<Rightarrow> FileTransferManager \<Rightarrow> FileTransferManager" where
  "onReceiverProgressUpdated fileName progress m =
     (case receivedFileToSession m fileName of
        None \<Rightarrow> m
      | Some sessionId \<Rightarrow> updateSessionProgress sessionId progress m)"

definition onReceiverStatusUpdated :: "string \<Rightarrow> TransferStatus \<Rightarrow> FileTransferManager \<Rightarrow> FileTransferManager" where
  "onReceiverStatusUpdated fileName status m =
     (case receivedFileToSession m fileName of
        None \<Rightarrow> m
      | Some sessionId \<Rightarrow> updateSessionStatus sessionId status m)"

definition onReceiverFileReceived :: "string \<Rightarrow> FileTransferManager \<Rightarrow> FileTransferManager" where
  "onReceiverFileReceived fileName m =
     (case receivedFileToSession m fileName of
        None \<Rightarrow> m
      | Some sessionId \<Rightarrow>
          (let m1 = updateSessionStatus sessionId FINISHED m
           in m1\<lparr>receivedFileToSession := (receivedFileToSession m1)(fileName := None)\<rparr>))"

definition isBatchSignal :: "ManagerSignal \<Rightarrow> bool" where
  "isBatchSignal sig = (case sig of M_batchTransferRequested files socks \<Rightarrow> True | _ \<Rightarrow> False)"


subsection \<open>BroadcastDiscoveryService\<close>

text \<open>
  \<^verbatim>\<open>services/broadcastdiscoveryservice.cpp\<close>. The local identity
  (\<^verbatim>\<open>getLocalIPAddress\<close>, \<^verbatim>\<open>getLocalHostname\<close>), the transfer port and the
  JSON parser are read through the environment; the clock is the argument \<open>now\<close>,
  in milliseconds since the epoch. Datagrams the service sends are appended to
  \<open>sentDatagrams\<close> with their destination address and port.
\<close>

record DiscoveryEnv =
  localIPAddress :: string
  localHostname :: string
  localTransferPort :: nat
  parseJsonArray :: "string \<Rightarrow> string list option"

datatype DiscoverySignal =
    D_userListUpdated "LANDropUser list"
  | D_discoveryStarted
  | D_discoveryStopped

record BroadcastDiscoveryService =
  discoveredUsers :: "LANDropUser list"
  lastSeenTimes :: "string \<rightharpoonup> int"
  discovering :: bool
  discoverySocket :: bool
  myDiscoveryPort :: nat
  cachedSharedFilesJson :: string
  sentDatagrams :: "(string \<times> string \<times> nat) list"
  d_emitted :: "DiscoverySignal list"

definition USER_TIMEOUT_MS :: int where
  "USER_TIMEOUT_MS = 15000"

definition isSelfMessage :: "DiscoveryEnv \<Rightarrow> string \<Rightarrow> string \<Rightarrow> bool" where
  "isSelfMessage env senderIP host =
     (if senderIP = localIPAddress env \<or> host = localHostname env then True else False)"

text \<open>
  The loop of \<^verbatim>\<open>updatePeerWithSharedFiles\<close>: the first entry with the same
  address or the same host name is replaced; \<open>None\<close> when there is none.
\<close>

fun replaceFirstMatch :: "LANDropUser \<Rightarrow> LANDropUser list \<Rightarrow> LANDropUser list option" where
  "replaceFirstMatch user [] = None"
| "replaceFirstMatch user (u # us) =
     (if ipAddress u = ipAddress user \<or> hostname u = hostname user then Some (user # us)
      else map_option (\<lambda>rest. u # rest) (replaceFirstMatch user us))"

definition updatePeerWithSharedFiles ::
  "int \<Rightarrow> LANDropUser \<Rightarrow> BroadcastDiscoveryService \<Rightarrow> BroadcastDiscoveryService" where
  "updatePeerWithSharedFiles now user d =
     (let users = (case replaceFirstMatch user (discoveredUsers d) of
                     Some replaced \<Rightarrow> replaced
                   | None \<Rightarrow> discoveredUsers d @ [user])
      in d\<lparr>lastSeenTimes := (lastSeenTimes d)(ipAddress user \<mapsto> now),
           discoveredUsers := users,
           d_emitted := d_emitted d @ [D_userListUpdated users]\<rparr>)"

text \<open>The shared-file field of a message, when it is there and parses to an array.\<close>

definition sharedFilesOf :: "DiscoveryEnv \<Rightarrow> string list \<Rightarrow> string list" where
  "sharedFilesOf env parts =
     (if 5 \<le> length parts
      then (case parseJsonArray env (parts ! 4) of None \<Rightarrow> [] | Some files \<Rightarrow> files)
      else [])"

definition handleDiscoveryRequest ::
  "DiscoveryEnv \<Rightarrow> int \<Rightarrow> string \<Rightarrow> string \<Rightarrow> string \<Rightarrow>
   BroadcastDiscoveryService \<Rightarrow> BroadcastDiscoveryService" where
  "handleDiscoveryRequest env now message sender senderIP d =
     (let parts = split_on (CHR ''|'') message
      in if 4 \<le> length parts then
           (let senderDiscoveryPort = toUShort (parts ! 1);
                port = toUShort (parts ! 2);
                host = parts ! 3;
                files = sharedFilesOf env parts
            in if isSelfMessage env senderIP host then d
               else
                 (let responseMessage =
                        ''LANDROP_RESPONSE_V1|'' @ QString_number (int (myDiscoveryPort d)) @ ''|'' @
                        QString_number (int (localTransferPort env)) @ ''|'' @ localHostname env @ ''|'' @
                        cachedSharedFilesJson d;
                      d1 = d\<lparr>sentDatagrams := sentDatagrams d @
                              [(responseMessage, sender, senderDiscoveryPort)]\<rparr>
                  in updatePeerWithSharedFiles now
                       \<lparr>ipAddress = senderIP, hostname = host, transferPort = port,
                        version = ''1.0'', sharedFiles = files\<rparr> d1))
         else d)"

definition handleDiscoveryResponse ::
  "DiscoveryEnv \<Rightarrow> int \<Rightarrow> string \<Rightarrow> string \<Rightarrow>
   BroadcastDiscoveryService \<Rightarrow> BroadcastDiscoveryService" where
  "handleDiscoveryResponse env now message senderIP d =
     (let parts = split_on (CHR ''|'') message
      in if 4 \<le> length parts then
           (let port = toUShort (parts ! 2);
                host = parts ! 3;
                files = sharedFilesOf env parts
            in if isSelfMessage env senderIP host then d
               else updatePeerWithSharedFiles now
                      \<lparr>ipAddress = senderIP, hostname = host, transferPort = port,
                       version = ''1.0'', sharedFiles = files\<rparr> d)
         else d)"

text \<open>
  The body of the loop of \<^verbatim>\<open>handleDiscoveryMessage\<close> for one datagram that was
  read: \<open>sender\<close> is the text of the sender's address.
\<close>

definition cleanSenderIP :: "string \<Rightarrow> string" where
  "cleanSenderIP sender = (if startsWith sender ''::ffff:'' then drop 7 sender else sender)"

definition handleDiscoveryMessage ::
  "DiscoveryEnv \<Rightarrow> int \<Rightarrow> string \<Rightarrow> string \<Rightarrow>
   BroadcastDiscoveryService \<Rightarrow> BroadcastDiscoveryService" where
  "handleDiscoveryMessage env now message sender d =
     (if \<not> discoverySocket d \<or> \<not> discovering d then d
      else
        (let senderIP = cleanSenderIP sender
         in if startsWith message ''LANDROP_DISCOVERY_V1|''
            then handleDiscoveryRequest env now message sender senderIP d
            else if startsWith message ''LANDROP_RESPONSE_V1|''
            then handleDiscoveryResponse env now message senderIP d
            else d))"

text \<open>
  \<^verbatim>\<open>cleanupExpiredUsers\<close>. The loop runs the index from the last entry down to 0;
  \<open>cleanupLoop env now n\<close> is the loop with \<open>n\<close> indices left, so its next index is
  \<open>n - 1\<close>. The loop's state is the list, the map of last-seen times and
  \<^verbatim>\<open>anyRemoved\<close>.
\<close>

definition cleanupBody ::
  "DiscoveryEnv \<Rightarrow> int \<Rightarrow> nat \<Rightarrow> LANDropUser list \<times> (string \<rightharpoonup> int) \<times> bool \<Rightarrow>
   LANDropUser list \<times> (string \<rightharpoonup> int) \<times> bool" where
  "cleanupBody env currentTime i st =
     (case st of (users, seen, anyRemoved) \<Rightarrow>
        (let ip = ipAddress (users ! i);
             host = hostname (users ! i);
             lastSeen = (case seen ip of None \<Rightarrow> 0 | Some t \<Rightarrow> t);
             timeSinceLastSeen = currentTime - lastSeen
         in if ip = localIPAddress env \<or> host = localHostname env
            then (take i users @ drop (Suc i) users, seen(ip := None), True)
            else if USER_TIMEOUT_MS < timeSinceLastSeen
            then (take i users @ drop (Suc i) users, seen(ip := None), True)
            else (users, seen, anyRemoved)))"

fun cleanupLoop ::
  "DiscoveryEnv \<Rightarrow> int \<Rightarrow> nat \<Rightarrow> LANDropUser list \<times> (string \<rightharpoonup> int) \<times> bool \<Rightarrow>
   LANDropUser list \<times> (string \<rightharpoonup> int) \<times> bool" where
  "cleanupLoop env currentTime 0 st = st"
| "cleanupLoop env currentTime (Suc i) st =
     cleanupLoop env currentTime i (cleanupBody env currentTime i st)"

definition cleanupExpiredUsers ::
  "DiscoveryEnv \<Rightarrow> int \<Rightarrow> BroadcastDiscoveryService \<Rightarrow> BroadcastDiscoveryService" where
  "cleanupExpiredUsers env currentTime d =
     (case cleanupLoop env currentTime (length (discoveredUsers d))
             (discoveredUsers d, lastSeenTimes d, False) of
        (users, seen, anyRemoved) \<Rightarrow>
          (let d1 = d\<lparr>discoveredUsers := users, lastSeenTimes := seen\<rparr>
           in if anyRemoved then d1\<lparr>d_emitted := d_emitted d1 @ [D_userListUpdated users]\<rparr>
              else d1))"

text \<open>
  A peer's time since it was last seen, as \<^verbatim>\<open>cleanupExpiredUsers\<close> computes it
  (\<^verbatim>\<open>lastSeenTimes.value(ip, 0)\<close>), and the two reasons for removal.
\<close>

definition timeSinceLastSeen :: "int \<Rightarrow> (string \<rightharpoonup> int) \<Rightarrow> LANDropUser \<Rightarrow> int" where
  "timeSinceLastSeen currentTime seen u =
     currentTime - (case seen (ipAddress u) of None \<Rightarrow> 0 | Some t \<Rightarrow> t)"

definition isSelfEntry :: "DiscoveryEnv \<Rightarrow> LANDropUser \<Rightarrow> bool" where
  "isSelfEntry env u = (ipAddress u = localIPAddress env \<or> hostname u = localHostname env)"

definition isExpired :: "int \<Rightarrow> (string \<rightharpoonup> int) \<Rightarrow> LANDropUser \<Rightarrow> bool" where
  "isExpired currentTime seen u = (USER_TIMEOUT_MS < timeSinceLastSeen currentTime seen u)"

subsection \<open>Predicates of the properties, and example states\<close>

text \<open>
  A first line the Receiver is to reject, in the words of the specification, with a
  declared size counted as invalid when it parses to a negative number.
\<close>

definition malformedMetadata :: "string \<Rightarrow> bool" where
  "malformedMetadata line =
     (line = [] \<or> CHR ''|'' \<notin> set line \<or> length (split_on (CHR ''|'') line) < 2 \<or>
      split_on (CHR ''|'') line ! 0 = [] \<or> toLongLong (split_on (CHR ''|'') line ! 1) < 0)"

text \<open>
  The socket has an entry of that name and declared size, and has received at
  least the declared size.
\<close>

definition completeFrom :: "Receiver \<Rightarrow> socket_id \<Rightarrow> string \<Rightarrow> int \<Rightarrow> bool" where
  "completeFrom r s nm sz =
     (case (sockets r s, pendingFiles r s) of
        (Some sk, Some fi) \<Rightarrow> fd_name fi = nm \<and> fd_size fi = sz \<and> sz \<le> fd_totalReceived fi
      | _ \<Rightarrow> False)"

text \<open>A Receiver with one socket, numbered 1, in three situations.\<close>

definition exampleReceiverEnv :: ReceiverEnv where
  "exampleReceiverEnv =
     \<lparr>percentOf = (\<lambda>received whole. 0), sharedFilePath = (\<lambda>p. ''/shared/'' @ p),
      isExistingFile = (\<lambda>p. False)\<rparr>"

definition receiverWithLine :: "string \<Rightarrow> Receiver" where
  "receiverWithLine line =
     \<lparr>pendingFiles = Map.empty,
      sockets = [1 \<mapsto> \<lparr>peerAddress = ''10.0.0.2'', readBuffer = line @ [CHR 0x0A],
                       disconnectRequested = False\<rparr>],
      qfiles = Map.empty, emitted = [], reverseSends = []\<rparr>"

definition receiverAwaitingAccept :: Receiver where
  "receiverAwaitingAccept =
     \<lparr>pendingFiles = [1 \<mapsto> \<lparr>fd_file = None, fd_name = ''a.txt'', fd_size = 4, fd_totalReceived = 0\<rparr>],
      sockets = [1 \<mapsto> \<lparr>peerAddress = ''10.0.0.2'', readBuffer = [], disconnectRequested = False\<rparr>],
      qfiles = [7 \<mapsto> \<lparr>isOpen = True, contents = [], writeFails = False\<rparr>],
      emitted = [], reverseSends = []\<rparr>"

definition receiverMidTransfer :: "int \<Rightarrow> Receiver" where
  "receiverMidTransfer received =
     \<lparr>pendingFiles = [1 \<mapsto> \<lparr>fd_file = Some 7, fd_name = ''a.txt'', fd_size = 4, fd_totalReceived = received\<rparr>],
      sockets = [1 \<mapsto> \<lparr>peerAddress = ''10.0.0.2'', readBuffer = [], disconnectRequested = False\<rparr>],
      qfiles = [7 \<mapsto> \<lparr>isOpen = True, contents = [], writeFails = False\<rparr>],
      emitted = [], reverseSends = []\<rparr>"

definition exampleSession :: "TransferStatus \<Rightarrow> TransferSession" where
  "exampleSession st =
     \<lparr>ts_id = 1, ts_fileName = ''a.txt @10.0.0.2'', ts_recipientIP = ''10.0.0.2'',
      ts_status = st, ts_progress = 0, ts_sender = Some 0\<rparr>"

definition managerWithSession :: "TransferStatus \<Rightarrow> FileTransferManager" where
  "managerWithSession st =
     newFileTransferManager\<lparr>sessions := [1 \<mapsto> exampleSession st],
       senderToSession := [0 \<mapsto> 1], nextSessionId := 2,
       senders := [0 \<mapsto> newSender 5556], wired := (\<lambda>s. s = 0), nextSender := 1\<rparr>"

definition incomingSignals :: "int \<Rightarrow> string \<Rightarrow> ManagerSignal list" where
  "incomingSignals k fileName =
     [M_transferSessionCreated k fileName ''Incoming'', M_transferStatusChanged k WAITING]"

text \<open>
  What \<^verbatim>\<open>sendFilesToUsers\<close> produces for one pair: the session's display name, the
  session as it is created, and the Sender as \<^verbatim>\<open>sendFile\<close> leaves it.
\<close>

definition outboundName :: "string \<Rightarrow> LANDropUser \<Rightarrow> string" where
  "outboundName filePath user = QFileInfo_fileName filePath @ '' @'' @ ipAddress user"

definition outboundSession :: "int \<Rightarrow> sender_id \<Rightarrow> string \<Rightarrow> LANDropUser \<Rightarrow> TransferSession" where
  "outboundSession k sender filePath user =
     \<lparr>ts_id = k, ts_fileName = outboundName filePath user, ts_recipientIP = ipAddress user,
      ts_status = WAITING, ts_progress = 0, ts_sender = Some sender\<rparr>"

definition idleSender :: "string \<Rightarrow> nat \<Rightarrow> Sender" where
  "idleSender filePath port =
     \<lparr>s_socket = None, s_file = Some \<lparr>sf_path = filePath, sf_isOpen = False, sf_pos = 0\<rparr>,
      bytesSent = 0, s_port = port, connectionTimer = False, responseTimer = False,
      s_emitted = []\<rparr>"

definition noFiles :: SenderEnv where
  "noFiles = \<lparr>fileContents = Map.empty, canOpen = (\<lambda>p. False), bufferSize = 65536\<rparr>"

definition exampleUser :: LANDropUser where
  "exampleUser = \<lparr>ipAddress = ''10.0.0.2'', hostname = ''peer'', transferPort = 5556,
                  version = ''1.0'', sharedFiles = []\<rparr>"

definition otherUser :: LANDropUser where
  "otherUser = \<lparr>ipAddress = ''10.0.0.3'', hostname = ''other'', transferPort = 6000,
                version = ''1.0'', sharedFiles = []\<rparr>"

definition sendPair ::
  "SenderEnv \<Rightarrow> nat \<Rightarrow> FileTransferManager \<Rightarrow> string \<times> LANDropUser \<Rightarrow> FileTransferManager" where
  "sendPair env port m p = sendFileToUser env port (fst p) (snd p) m"

text \<open>
  The clock counts milliseconds since the epoch: the times stored in
  \<open>lastSeenTimes\<close> are not negative.
\<close>

definition saneTimes :: "(string \<rightharpoonup> int) \<Rightarrow> bool" where
  "saneTimes seen = (\<forall>ip t. seen ip = Some t \<longrightarrow> 0 \<le> t)"

definition exampleDiscoveryEnv :: DiscoveryEnv where
  "exampleDiscoveryEnv =
     \<lparr>localIPAddress = ''192.168.1.5'', localHostname = ''me'', localTransferPort = 5556,
      parseJsonArray = (\<lambda>s. if s = ''[]'' then Some [] else None)\<rparr>"

definition peerUser :: "string \<Rightarrow> string \<Rightarrow> LANDropUser" where
  "peerUser ip host =
     \<lparr>ipAddress = ip, hostname = host, transferPort = 5556, version = ''1.0'', sharedFiles = []\<rparr>"

definition exampleDiscovery :: BroadcastDiscoveryService where
  "exampleDiscovery =
     \<lparr>discoveredUsers = [peerUser ''192.168.1.7'' ''old'', peerUser ''192.168.1.8'' ''fresh'',
                          peerUser ''192.168.1.9'' ''me''],
      lastSeenTimes = [''192.168.1.7'' \<mapsto> 1000, ''192.168.1.8'' \<mapsto> 90000, ''192.168.1.9'' \<mapsto> 99000],
      discovering = True, discoverySocket = True, myDiscoveryPort = 12346,
      cachedSharedFilesJson = ''[]'', sentDatagrams = [], d_emitted = []\<rparr>"

text \<open>
  What holds of a Sender throughout one transfer of the file \<open>path\<close>, started by
  \<^verbatim>\<open>sendFile\<close> on a new Sender: \<open>senderGlobal\<close> speaks of the signals emitted so
  far and of \<open>bytesSent\<close>, \<open>senderLocal\<close> of the socket and the file while the
  Sender holds both.
\<close>

definition senderGlobal :: "SenderEnv \<Rightarrow> string \<Rightarrow> Sender \<Rightarrow> bool" where
  "senderGlobal env path s =
     (sorted (progressValues (s_emitted s))
      \<and> (S_transferFinished \<in> set (s_emitted s) \<and> int (bufferSize env) < fileSize env path \<longrightarrow>
           S_progressUpdated 100 \<in> set (s_emitted s))
      \<and> (fileSize env path \<le> int (bufferSize env) \<longrightarrow> progressValues (s_emitted s) = [])
      \<and> (int (bufferSize env) < bytesSent s \<longrightarrow>
           S_progressUpdated (bytesSent s * 100 div fileSize env path) \<in> set (s_emitted s))
      \<and> 0 \<le> bytesSent s \<and> bytesSent s \<le> fileSize env path)"

definition senderLocal :: "SenderEnv \<Rightarrow> string \<Rightarrow> Sender \<Rightarrow> bool" where
  "senderLocal env path s =
     (case s_socket s of
        None \<Rightarrow> True
      | Some sk \<Rightarrow>
         (case s_file s of
            None \<Rightarrow> True
          | Some f \<Rightarrow>
              sf_path f = path \<and>
              (if sf_isOpen f
               then ss_streaming sk \<and> bytesSent s = int (sf_pos f)
                    \<and> min (bufferSize env) (length (fileBytes env path)) \<le> sf_pos f
                    \<and> sf_pos f \<le> length (fileBytes env path)
                    \<and> (\<forall>p\<in>set (progressValues (s_emitted s)).
                          p \<le> int (sf_pos f) * 100 div fileSize env path)
               else (\<not> ss_streaming sk \<and> progressValues (s_emitted s) = [] \<and> bytesSent s = 0)
                    \<or> (ss_streaming sk \<and> ss_state sk = ClosingState))))"

definition senderInv :: "SenderEnv \<Rightarrow> string \<Rightarrow> Sender \<Rightarrow> bool" where
  "senderInv env path s = (senderGlobal env path s \<and> senderLocal env path s)"

text \<open>The signals a step added, and what is to hold of them.\<close>

definition freshSignals :: "Sender \<Rightarrow> Sender \<Rightarrow> SenderSignal list" where
  "freshSignals s s' = drop (length (s_emitted s)) (s_emitted s')"

definition stepFacts :: "SenderEnv \<Rightarrow> string \<Rightarrow> Sender \<Rightarrow> Sender \<Rightarrow> bool" where
  "stepFacts env path s s' =
     ((\<forall>p. S_progressUpdated p \<in> set (freshSignals s s') \<longrightarrow>
            p = bytesSent s' * 100 div fileSize env path)
      \<and> (S_transferFinished \<in> set (freshSignals s s') \<longrightarrow> bytesSent s' = fileSize env path))"

definition oneFile :: "string \<Rightarrow> nat \<Rightarrow> SenderEnv" where
  "oneFile bytes chunk =
     \<lparr>fileContents = [''/tmp/a.txt'' \<mapsto> bytes], canOpen = (\<lambda>p. p = ''/tmp/a.txt''),
      bufferSize = chunk\<rparr>"

text \<open>
  The states a Sender of \<open>/tmp/a.txt\<close> to 10.0.0.2:5556 passes through: the socket's
  state, what was written to it and whether the chunk lambda is connected, whether
  the file is open and its position, the two timers and the signals emitted.
\<close>

definition senderState ::
  "SocketState \<Rightarrow> string \<Rightarrow> bool \<Rightarrow> bool \<Rightarrow> nat \<Rightarrow> bool \<Rightarrow> bool \<Rightarrow> SenderSignal list \<Rightarrow> Sender" where
  "senderState st written streaming opened pos ctimer rtimer sigs =
     \<lparr>s_socket = Some \<lparr>ss_state = st, ss_peer = (''10.0.0.2'', 5556), ss_readBuffer = [],
                        ss_written = written, ss_streaming = streaming\<rparr>,
      s_file = Some \<lparr>sf_path = ''/tmp/a.txt'', sf_isOpen = opened, sf_pos = pos\<rparr>,
      bytesSent = int pos, s_port = 5556, connectionTimer = ctimer, responseTimer = rtimer,
      s_emitted = sigs\<rparr>"

section \<open>Properties\<close>

subsection \<open>Receiver: projections of the helper operations\<close>

lemma disconnectFromHost_fields:
  "pendingFiles (disconnectFromHost s r) = pendingFiles r"
  "emitted (disconnectFromHost s r) = emitted r"
  "qfiles (disconnectFromHost s r) = qfiles r"
  "reverseSends (disconnectFromHost s r) = reverseSends r"
  "sockets (disconnectFromHost s r) s' =
     (if s' = s then map_option (\<lambda>sk. sk\<lparr>disconnectRequested := True\<rparr>) (sockets r s)
      else sockets r s')"
  by (simp_all add: disconnectFromHost_def split: option.splits)

lemma handleDownloadRequest_fields:
  "pendingFiles (handleDownloadRequest env a b c d r) = pendingFiles r"
  "emitted (handleDownloadRequest env a b c d r) = emitted r"
  "qfiles (handleDownloadRequest env a b c d r) = qfiles r"
  "sockets (handleDownloadRequest env a b c d r) = sockets r"
  by (simp_all add: handleDownloadRequest_def Let_def)

lemma closeAndDelete_fields:
  "pendingFiles (closeAndDelete f r) = pendingFiles r"
  "emitted (closeAndDelete f r) = emitted r"
  "sockets (closeAndDelete f r) = sockets r"
  "qfiles (closeAndDelete f r) f' =
     (if f' = f then map_option (\<lambda>qf. qf\<lparr>isOpen := False\<rparr>) (qfiles r f) else qfiles r f')"
  by (simp_all add: closeAndDelete_def split: option.splits)

lemma split_on_not_Nil: "split_on c s \<noteq> []"
  by (induction s) (auto split: list.splits)

lemma split_on_two_fields: "c \<in> set s \<Longrightarrow> 2 \<le> length (split_on c s)"
proof (induction s)
  case Nil
  then show ?case by simp
next
  case (Cons x xs)
  show ?case
  proof (cases "x = c")
    case True
    then show ?thesis using split_on_not_Nil [of c xs]
      by (cases "split_on c xs") auto
  next
    case False
    with Cons have "2 \<le> length (split_on c xs)" by simp
    with False show ?thesis by (cases "split_on c xs") auto
  qed
qed

text \<open>
  C4. On \<^verbatim>\<open>disconnected\<close> of a socket that completed the metadata phase (it has a
  pending-file entry), the Receiver emits CANCELLED when \<open>totalReceived\<close> is
  strictly less than the declared size, and otherwise the received-successfully
  notification followed by FINISHED; in both cases the entry of the socket is
  removed and the file attached to it, if any, is closed.
\<close>

theorem C4_disconnect_reports_and_cleans_up:
  assumes "sockets r s = Some sk" and "pendingFiles r s = Some fi"
  shows "emitted (Receiver_onDisconnected s r) =
           emitted r @
             (if fd_totalReceived fi < fd_size fi
              then [R_transferStatusUpdated (fd_name fi) CANCELLED]
              else [R_fileReceivedSuccessfully (QFileInfo_fileName (fd_name fi)),
                    R_transferStatusUpdated (fd_name fi) FINISHED])
         \<and> pendingFiles (Receiver_onDisconnected s r) s = None
         \<and> (\<forall>f qf. fd_file fi = Some f \<longrightarrow> qfiles r f = Some qf \<longrightarrow>
               qfiles (Receiver_onDisconnected s r) f = Some (qf\<lparr>isOpen := False\<rparr>))"
  using assms
  by (auto simp: Receiver_onDisconnected_def closeAndDelete_def Let_def split: option.splits)

theorem C4_witness:
  "emitted (Receiver_onDisconnected 1 (receiverMidTransfer 3)) =
     [R_transferStatusUpdated ''a.txt'' CANCELLED]
   \<and> emitted (Receiver_onDisconnected 1 (receiverMidTransfer 4)) =
     [R_fileReceivedSuccessfully ''a.txt'', R_transferStatusUpdated ''a.txt'' FINISHED]
   \<and> pendingFiles (Receiver_onDisconnected 1 (receiverMidTransfer 3)) 1 = None
   \<and> qfiles (Receiver_onDisconnected 1 (receiverMidTransfer 3)) 7 =
       Some \<lparr>isOpen = False, contents = [], writeFails = False\<rparr>"
proof -
  let ?sk = "\<lparr>peerAddress = ''10.0.0.2'', readBuffer = [], disconnectRequested = False\<rparr>"
  let ?fi = "\<lambda>n. \<lparr>fd_file = Some 7, fd_name = ''a.txt'', fd_size = 4, fd_totalReceived = n\<rparr>"
  have s3: "sockets (receiverMidTransfer 3) 1 = Some ?sk"
    and p3: "pendingFiles (receiverMidTransfer 3) 1 = Some (?fi 3)"
    and s4: "sockets (receiverMidTransfer 4) 1 = Some ?sk"
    and p4: "pendingFiles (receiverMidTransfer 4) 1 = Some (?fi 4)"
    by (simp_all add: receiverMidTransfer_def)
  have q: "qfiles (receiverMidTransfer 3) 7 = Some \<lparr>isOpen = True, contents = [], writeFails = False\<rparr>"
    by (simp add: receiverMidTransfer_def)
  from C4_disconnect_reports_and_cleans_up [OF s3 p3] C4_disconnect_reports_and_cleans_up [OF s4 p4] q
  show ?thesis
    by (simp add: receiverMidTransfer_def QFileInfo_fileName_def)
qed

subsection \<open>Receiver: the metadata branch\<close>

text \<open>
  The metadata branch has three outcomes; \<open>consumed\<close> is the Receiver after the
  first line was read off the socket.
\<close>

lemma onReadyRead_metadata_rejected:
  assumes "sockets r s = Some sk" and "pendingFiles r s = None"
    and "malformedMetadata (trimmed (fst (readLine (readBuffer sk))))"
  shows "pendingFiles (Receiver_onReadyRead env s r) = pendingFiles r"
    and "emitted (Receiver_onReadyRead env s r) = emitted r"
    and "qfiles (Receiver_onReadyRead env s r) = qfiles r"
    and "sockets (Receiver_onReadyRead env s r) s =
           Some (sk\<lparr>readBuffer := snd (readLine (readBuffer sk)), disconnectRequested := True\<rparr>)"
    and "s' \<noteq> s \<Longrightarrow> sockets (Receiver_onReadyRead env s r) s' = sockets r s'"
  using assms
  by (auto simp: Receiver_onReadyRead_def malformedMetadata_def Let_def
      disconnectFromHost_fields handleDownloadRequest_fields)

lemma onReadyRead_metadata_accepted:
  assumes "sockets r s = Some sk" and "pendingFiles r s = None"
    and "line = trimmed (fst (readLine (readBuffer sk)))"
    and "line \<noteq> []" and "CHR ''|'' \<in> set line" and "\<not> startsWith line ''DOWNLOAD_REQUEST|''"
    and "split_on (CHR ''|'') line ! 0 \<noteq> []" and "0 \<le> toLongLong (split_on (CHR ''|'') line ! 1)"
  shows "Receiver_onReadyRead env s r =
           r\<lparr>sockets := (sockets r)(s \<mapsto> sk\<lparr>readBuffer := snd (readLine (readBuffer sk))\<rparr>),
             pendingFiles := (pendingFiles r)(s \<mapsto>
               \<lparr>fd_file = None, fd_name = split_on (CHR ''|'') line ! 0,
                fd_size = toLongLong (split_on (CHR ''|'') line ! 1), fd_totalReceived = 0\<rparr>),
             emitted := emitted r @
               [R_fileTransferRequested (split_on (CHR ''|'') line ! 0)
                  (QString_number (toLongLong (split_on (CHR ''|'') line ! 1))) s]\<rparr>"
proof -
  have "\<not> length (split_on (CHR ''|'') line) < 2"
    using split_on_two_fields [OF assms(5)] by simp
  then show ?thesis using assms
    by (simp add: Receiver_onReadyRead_def Let_def)
qed

text \<open>
  C8, as the code has it. A first line that is empty, has no separator, has fewer
  than two fields, has an empty file name, or declares a size that parses to a
  negative number makes the Receiver call \<^verbatim>\<open>disconnectFromHost\<close> on that socket
  and on no other; no pending-file entry is created, no signal is emitted (so the
  manager, which creates inbound sessions on \<^verbatim>\<open>fileTransferRequested\<close> only,
  creates none), no file is touched, and the slot returns.
\<close>

theorem C8_malformed_metadata_disconnects:
  assumes "sockets r s = Some sk" and "pendingFiles r s = None"
    and "malformedMetadata (trimmed (fst (readLine (readBuffer sk))))"
  shows "pendingFiles (Receiver_onReadyRead env s r) = pendingFiles r
       \<and> emitted (Receiver_onReadyRead env s r) = emitted r
       \<and> qfiles (Receiver_onReadyRead env s r) = qfiles r
       \<and> (\<exists>sk'. sockets (Receiver_onReadyRead env s r) s = Some sk' \<and> disconnectRequested sk')
       \<and> (\<forall>s'. s' \<noteq> s \<longrightarrow> sockets (Receiver_onReadyRead env s r) s' = sockets r s')"
  using onReadyRead_metadata_rejected [OF assms, where env = env] by simp

theorem C8_witness:
  "malformedMetadata ''a.txt|-5''
   \<and> pendingFiles (Receiver_onReadyRead exampleReceiverEnv 1 (receiverWithLine ''a.txt|-5'')) 1 = None
   \<and> emitted (Receiver_onReadyRead exampleReceiverEnv 1 (receiverWithLine ''a.txt|-5'')) = []
   \<and> (\<exists>sk'. sockets (Receiver_onReadyRead exampleReceiverEnv 1 (receiverWithLine ''a.txt|-5'')) 1 = Some sk'
         \<and> disconnectRequested sk')"
proof -
  let ?sk = "\<lparr>peerAddress = ''10.0.0.2'', readBuffer = ''a.txt|-5'' @ [CHR 0x0A],
              disconnectRequested = False\<rparr>"
  have sk: "sockets (receiverWithLine ''a.txt|-5'') 1 = Some ?sk"
    and pf: "pendingFiles (receiverWithLine ''a.txt|-5'') 1 = None"
    by (simp_all add: receiverWithLine_def)
  have line: "trimmed (fst (readLine (readBuffer ?sk))) = ''a.txt|-5''"
    by (simp add: readLine_def trimmed_def isSpace_def)
  have bad: "malformedMetadata ''a.txt|-5''"
    by (simp add: malformedMetadata_def toLongLong_def parseInteger_def trimmed_def isSpace_def
        isDigit_def Let_def)
  from bad line have "malformedMetadata (trimmed (fst (readLine (readBuffer ?sk))))" by simp
  from C8_malformed_metadata_disconnects [OF sk pf this, where env = exampleReceiverEnv] bad
  show ?thesis by (simp add: receiverWithLine_def)
qed

text \<open>
  C8 as stated fails where the declared size is not a number: \<^verbatim>\<open>toLongLong\<close>
  turns \<^verbatim>\<open>abc\<close> into 0, which the guard \<^verbatim>\<open>fileSize < 0\<close> lets through. The
  socket is not disconnected, a pending entry of size 0 is created and the offer is
  announced.
\<close>

theorem C8_counterexample:
  "parseInteger ''abc'' = None
   \<and> pendingFiles (Receiver_onReadyRead exampleReceiverEnv 1 (receiverWithLine ''a.txt|abc'')) 1 =
       Some \<lparr>fd_file = None, fd_name = ''a.txt'', fd_size = 0, fd_totalReceived = 0\<rparr>
   \<and> emitted (Receiver_onReadyRead exampleReceiverEnv 1 (receiverWithLine ''a.txt|abc'')) =
       [R_fileTransferRequested ''a.txt'' ''0'' 1]
   \<and> sockets (Receiver_onReadyRead exampleReceiverEnv 1 (receiverWithLine ''a.txt|abc'')) 1 =
       Some \<lparr>peerAddress = ''10.0.0.2'', readBuffer = [], disconnectRequested = False\<rparr>"
  by (simp add: Receiver_onReadyRead_def receiverWithLine_def readLine_def trimmed_def isSpace_def
      startsWith_def toLongLong_def parseInteger_def isDigit_def Let_def QString_number_def
      natDigits.simps)


subsection \<open>Receiver: a transfer that is complete from the start\<close>

lemma onReadyRead_payload_entry:
  assumes "sockets r s = Some sk" and "pendingFiles r s = Some fi"
  shows "\<exists>fi'. pendingFiles (Receiver_onReadyRead env s r) s = Some fi' \<and> fd_name fi' = fd_name fi
           \<and> fd_size fi' = fd_size fi \<and> fd_totalReceived fi \<le> fd_totalReceived fi'
           \<and> sockets (Receiver_onReadyRead env s r) s \<noteq> None"
  using assms
  by (simp add: Receiver_onReadyRead_def Let_def disconnectFromHost_fields split: option.splits)

lemma onReadyRead_other_socket:
  assumes "s' \<noteq> s"
  shows "pendingFiles (Receiver_onReadyRead env s' r) s = pendingFiles r s
       \<and> sockets (Receiver_onReadyRead env s' r) s = sockets r s"
  using assms
  by (simp add: Receiver_onReadyRead_def Let_def disconnectFromHost_fields handleDownloadRequest_fields
      split: option.splits)

lemma completeFrom_step:
  assumes "completeFrom r s nm sz" and "i \<noteq> Disconnected s"
  shows "completeFrom (receiverStep env r i) s nm sz"
proof -
  from assms(1) obtain sk fi where sk: "sockets r s = Some sk" and fi: "pendingFiles r s = Some fi"
    and nm: "fd_name fi = nm" and sz: "fd_size fi = sz" and le: "sz \<le> fd_totalReceived fi"
    by (auto simp: completeFrom_def split: option.splits)
  show ?thesis
  proof (cases i)
    case (NewConnection s' addr)
    then show ?thesis using assms(1) sk
      by (auto simp: completeFrom_def Receiver_onNewConnection_def)
  next
    case (BytesArrive s' bytes)
    show ?thesis
    proof (cases "s' = s")
      case True
      let ?r = "r\<lparr>sockets := (sockets r)(s \<mapsto> sk\<lparr>readBuffer := readBuffer sk @ bytes\<rparr>)\<rparr>"
      have "sockets ?r s = Some (sk\<lparr>readBuffer := readBuffer sk @ bytes\<rparr>)" and "pendingFiles ?r s = Some fi"
        using fi by simp_all
      from onReadyRead_payload_entry [OF this, of env]
      obtain fi' where "pendingFiles (Receiver_onReadyRead env s ?r) s = Some fi'"
        "fd_name fi' = fd_name fi" "fd_size fi' = fd_size fi"
        "fd_totalReceived fi \<le> fd_totalReceived fi'"
        "sockets (Receiver_onReadyRead env s ?r) s \<noteq> None"
        by blast
      then show ?thesis using BytesArrive True sk nm sz le
        by (auto simp: completeFrom_def socketReceives_def)
    next
      case False
      then show ?thesis using BytesArrive assms(1) onReadyRead_other_socket [of s' s env]
        by (auto simp: completeFrom_def socketReceives_def split: option.splits)
    qed
  next
    case (Disconnected s')
    then have "s' \<noteq> s" using assms(2) by simp
    then show ?thesis using Disconnected sk fi nm sz le
      by (auto simp: completeFrom_def Receiver_onDisconnected_def closeAndDelete_fields Let_def
          split: option.splits)
  next
    case (UiOpensFile f qf)
    then show ?thesis using sk fi nm sz le
      by (simp add: completeFrom_def)
  next
    case (UiSetFile so fo)
    then show ?thesis using sk fi nm sz le
      by (auto simp: completeFrom_def setFile_def closeAndDelete_fields Let_def split: option.splits)
  qed
qed

lemma completeFrom_run:
  assumes "completeFrom r s nm sz" and "Disconnected s \<notin> set ins"
  shows "completeFrom (receiverRun env r ins) s nm sz"
  using assms unfolding receiverRun_def
proof (induction ins arbitrary: r)
  case Nil
  then show ?case by simp
next
  case (Cons i ins)
  from Cons.prems have "completeFrom (receiverStep env r i) s nm sz"
    by (intro completeFrom_step) auto
  with Cons show ?case by simp
qed

lemma completeFrom_disconnect:
  assumes "completeFrom r s nm sz"
  shows "emitted (Receiver_onDisconnected s r) =
         emitted r @ [R_fileReceivedSuccessfully (QFileInfo_fileName nm), R_transferStatusUpdated nm FINISHED]"
  using assms
  by (auto simp: completeFrom_def Receiver_onDisconnected_def closeAndDelete_fields Let_def split: option.splits)

text \<open>
  C10. For a first line of the form \<^verbatim>\<open>fileName|fileSize\<close> (not empty, with a
  separator, not a download request) the Receiver rejects the line, by
  disconnecting, exactly when the file name is empty or the parsed size is
  negative. Otherwise it creates the pending entry with \<open>totalReceived = 0\<close> and
  does not disconnect. A size field that is not a number parses to 0. When the
  parsed size is 0, whatever arrives on any socket and whatever the user interface
  attaches before the socket's first \<^verbatim>\<open>disconnected\<close> signal, that signal reports
  the transfer received and FINISHED.
\<close>

theorem C10_zero_or_unparsable_size_is_accepted_and_finishes:
  assumes "sockets r s = Some sk" and "pendingFiles r s = None"
    and "line = trimmed (fst (readLine (readBuffer sk)))"
    and "line \<noteq> []" and "CHR ''|'' \<in> set line" and "\<not> startsWith line ''DOWNLOAD_REQUEST|''"
    and "fileName = split_on (CHR ''|'') line ! 0" and "sizeField = split_on (CHR ''|'') line ! 1"
    and "r' = Receiver_onReadyRead env s r"
  shows "(pendingFiles r' s = None) = (fileName = [] \<or> toLongLong sizeField < 0)
       \<and> (pendingFiles r' s = None \<longrightarrow> (\<exists>sk'. sockets r' s = Some sk' \<and> disconnectRequested sk'))
       \<and> (fileName \<noteq> [] \<and> 0 \<le> toLongLong sizeField \<longrightarrow>
            pendingFiles r' s = Some \<lparr>fd_file = None, fd_name = fileName,
                                      fd_size = toLongLong sizeField, fd_totalReceived = 0\<rparr>
            \<and> sockets r' s = Some (sk\<lparr>readBuffer := snd (readLine (readBuffer sk))\<rparr>))
       \<and> (parseInteger sizeField = None \<longrightarrow> toLongLong sizeField = 0)
       \<and> (fileName \<noteq> [] \<and> toLongLong sizeField = 0 \<longrightarrow>
            (\<forall>ins. Disconnected s \<notin> set ins \<longrightarrow>
               emitted (Receiver_onDisconnected s (receiverRun env r' ins)) =
               emitted (receiverRun env r' ins) @
                 [R_fileReceivedSuccessfully (QFileInfo_fileName fileName),
                  R_transferStatusUpdated fileName FINISHED]))"
proof -
  have rejected: "pendingFiles r' s = None \<and> (\<exists>sk'. sockets r' s = Some sk' \<and> disconnectRequested sk')"
    if "fileName = [] \<or> toLongLong sizeField < 0"
  proof -
    from that assms(3,7,8) have "malformedMetadata (trimmed (fst (readLine (readBuffer sk))))"
      by (auto simp: malformedMetadata_def)
    from onReadyRead_metadata_rejected [OF assms(1,2) this, where env = env] assms(2,9)
    show ?thesis by simp
  qed
  have accepted: "r' = r\<lparr>sockets := (sockets r)(s \<mapsto> sk\<lparr>readBuffer := snd (readLine (readBuffer sk))\<rparr>),
             pendingFiles := (pendingFiles r)(s \<mapsto>
               \<lparr>fd_file = None, fd_name = fileName, fd_size = toLongLong sizeField, fd_totalReceived = 0\<rparr>),
             emitted := emitted r @ [R_fileTransferRequested fileName (QString_number (toLongLong sizeField)) s]\<rparr>"
    if "fileName \<noteq> []" and "0 \<le> toLongLong sizeField"
    using onReadyRead_metadata_accepted [OF assms(1,2,3,4,5,6), where env = env] that assms(7,8,9)
    by simp
  have c1: "(pendingFiles r' s = None) = (fileName = [] \<or> toLongLong sizeField < 0)"
  proof (cases "fileName = [] \<or> toLongLong sizeField < 0")
    case True
    then show ?thesis using rejected by simp
  next
    case False
    then have "pendingFiles r' s \<noteq> None" using accepted by simp
    with False show ?thesis by simp
  qed
  have c2: "pendingFiles r' s = None \<longrightarrow> (\<exists>sk'. sockets r' s = Some sk' \<and> disconnectRequested sk')"
    using c1 rejected by blast
  have c3: "fileName \<noteq> [] \<and> 0 \<le> toLongLong sizeField \<longrightarrow>
            pendingFiles r' s = Some \<lparr>fd_file = None, fd_name = fileName,
                                      fd_size = toLongLong sizeField, fd_totalReceived = 0\<rparr>
            \<and> sockets r' s = Some (sk\<lparr>readBuffer := snd (readLine (readBuffer sk))\<rparr>)"
    using accepted by simp
  have c4: "parseInteger sizeField = None \<longrightarrow> toLongLong sizeField = 0"
    by (simp add: toLongLong_def)
  have c5: "emitted (Receiver_onDisconnected s (receiverRun env r' ins)) =
               emitted (receiverRun env r' ins) @
                 [R_fileReceivedSuccessfully (QFileInfo_fileName fileName),
                  R_transferStatusUpdated fileName FINISHED]"
    if "fileName \<noteq> []" and "toLongLong sizeField = 0" and "Disconnected s \<notin> set ins" for ins
  proof -
    from that(1,2) c3 have "completeFrom r' s fileName 0"
      by (simp add: completeFrom_def)
    from completeFrom_disconnect [OF completeFrom_run [OF this that(3)]] show ?thesis .
  qed
  from c1 c2 c3 c4 c5 show ?thesis by blast
qed

theorem C10_witness:
  "parseInteger ''abc'' = None
   \<and> pendingFiles (Receiver_onReadyRead exampleReceiverEnv 1 (receiverWithLine ''a.txt|abc'')) 1 \<noteq> None
   \<and> emitted (Receiver_onDisconnected 1
        (receiverRun exampleReceiverEnv
           (Receiver_onReadyRead exampleReceiverEnv 1 (receiverWithLine ''a.txt|abc''))
           [UiOpensFile 7 \<lparr>isOpen = True, contents = [], writeFails = False\<rparr>,
            UiSetFile (Some 1) (Some 7), BytesArrive 1 ''hello''])) =
       [R_fileTransferRequested ''a.txt'' ''0'' 1,
        R_transferProgressUpdated ''a.txt'' 0,
        R_fileReceivedSuccessfully ''a.txt'',
        R_transferStatusUpdated ''a.txt'' FINISHED]"
proof -
  let ?sk = "\<lparr>peerAddress = ''10.0.0.2'', readBuffer = ''a.txt|abc'' @ [CHR 0x0A],
              disconnectRequested = False\<rparr>"
  let ?r' = "Receiver_onReadyRead exampleReceiverEnv 1 (receiverWithLine ''a.txt|abc'')"
  let ?ins = "[UiOpensFile 7 \<lparr>isOpen = True, contents = [], writeFails = False\<rparr>,
            UiSetFile (Some 1) (Some 7), BytesArrive 1 ''hello'']"
  have sk: "sockets (receiverWithLine ''a.txt|abc'') 1 = Some ?sk"
    and pf: "pendingFiles (receiverWithLine ''a.txt|abc'') 1 = None"
    by (simp_all add: receiverWithLine_def)
  have line: "''a.txt|abc'' = trimmed (fst (readLine (readBuffer ?sk)))"
    by (simp add: readLine_def trimmed_def isSpace_def)
  have shape: "''a.txt|abc'' \<noteq> []" "CHR ''|'' \<in> set ''a.txt|abc''"
    "\<not> startsWith ''a.txt|abc'' ''DOWNLOAD_REQUEST|''"
    by (simp_all add: startsWith_def)
  have fields: "''a.txt'' = split_on (CHR ''|'') ''a.txt|abc'' ! 0" "''abc'' = split_on (CHR ''|'') ''a.txt|abc'' ! 1"
    by simp_all
  have nan: "parseInteger ''abc'' = None"
    by (simp add: parseInteger_def trimmed_def isSpace_def isDigit_def Let_def)
  have zero: "toLongLong ''abc'' = 0"
    by (simp add: toLongLong_def nan)
  have free: "Disconnected 1 \<notin> set ?ins" by simp
  note inst = C10_zero_or_unparsable_size_is_accepted_and_finishes
      [OF sk pf line shape fields refl, where env = exampleReceiverEnv]
  from inst zero have entry: "pendingFiles ?r' 1 \<noteq> None" by simp
  from inst zero free have fin: "emitted (Receiver_onDisconnected 1 (receiverRun exampleReceiverEnv ?r' ?ins)) =
      emitted (receiverRun exampleReceiverEnv ?r' ?ins) @
        [R_fileReceivedSuccessfully (QFileInfo_fileName ''a.txt''), R_transferStatusUpdated ''a.txt'' FINISHED]"
    by blast
  have r': "?r' = (receiverWithLine ''a.txt|abc'')\<lparr>sockets := [1 \<mapsto> ?sk\<lparr>readBuffer := []\<rparr>],
       pendingFiles := [1 \<mapsto> \<lparr>fd_file = None, fd_name = ''a.txt'', fd_size = 0, fd_totalReceived = 0\<rparr>],
       emitted := [R_fileTransferRequested ''a.txt'' ''0'' 1]\<rparr>"
    by (simp add: Receiver_onReadyRead_def receiverWithLine_def readLine_def trimmed_def isSpace_def
      startsWith_def zero Let_def QString_number_def natDigits.simps)
  have run: "emitted (receiverRun exampleReceiverEnv ?r' ?ins) =
      [R_fileTransferRequested ''a.txt'' ''0'' 1, R_transferProgressUpdated ''a.txt'' 0]"
    unfolding r'
    by (simp add: receiverRun_def receiverWithLine_def setFile_def socketReceives_def
        Receiver_onReadyRead_def Let_def disconnectFromHost_def exampleReceiverEnv_def)
  from nan entry fin run show ?thesis
    by (simp add: QFileInfo_fileName_def)
qed


subsection \<open>Receiver: bytes that arrive before a handle is attached\<close>

text \<open>
  C2, as the code has it. In the payload phase of a socket with no file handle
  attached, bytes that arrive are not persisted when they arrive, in both
  Receivers. The \<^verbatim>\<open>landrop-plus\<close> Receiver returns before it reads: its state is
  unchanged but for the socket, which keeps the bytes unread, and once an open
  file is attached the next \<^verbatim>\<open>readyRead\<close> writes them to it, followed by the
  bytes that arrived later. The older \<^verbatim>\<open>landrop\<close> Receiver reads the bytes, counts
  them in \<open>totalReceived\<close> and writes them nowhere: there they are dropped.
\<close>

theorem C2_bytes_before_accept:
  assumes "sockets r s = Some sk" and "pendingFiles r s = Some fi" and "fd_file fi = None"
  shows "socketReceives env s bytes r =
           r\<lparr>sockets := (sockets r)(s \<mapsto> sk\<lparr>readBuffer := readBuffer sk @ bytes\<rparr>)\<rparr>
       \<and> (qfiles r f = Some qf \<and> isOpen qf \<and> \<not> writeFails qf \<and> bytes \<noteq> [] \<longrightarrow>
            qfiles (socketReceives env s later
                      (setFile (Some s) (Some f) (socketReceives env s bytes r))) f =
            Some (qf\<lparr>contents := contents qf @ readBuffer sk @ bytes @ later\<rparr>))
       \<and> (\<exists>r'. Legacy_socketReceives env s bytes r = Some r'
              \<and> qfiles r' = qfiles r
              \<and> sockets r' s = Some (sk\<lparr>readBuffer := []\<rparr>)
              \<and> pendingFiles r' s =
                  Some (fi\<lparr>fd_totalReceived := fd_totalReceived fi + int (length (readBuffer sk @ bytes))\<rparr>))"
proof -
  let ?r1 = "r\<lparr>sockets := (sockets r)(s \<mapsto> sk\<lparr>readBuffer := readBuffer sk @ bytes\<rparr>)\<rparr>"
  have kept: "socketReceives env s bytes r = ?r1"
    using assms by (simp add: socketReceives_def Receiver_onReadyRead_def)
  have attached: "setFile (Some s) (Some f) ?r1 =
      ?r1\<lparr>pendingFiles := (pendingFiles r)(s \<mapsto> fi\<lparr>fd_file := Some f\<rparr>)\<rparr>"
    using assms by (simp add: setFile_def)
  have later: "qfiles (socketReceives env s later (setFile (Some s) (Some f) ?r1)) f =
            Some (qf\<lparr>contents := contents qf @ readBuffer sk @ bytes @ later\<rparr>)"
    if "qfiles r f = Some qf" "isOpen qf" "\<not> writeFails qf" "bytes \<noteq> []"
    unfolding attached using that
    by (simp add: socketReceives_def Receiver_onReadyRead_def Let_def disconnectFromHost_fields)
  have legacy: "\<exists>r'. Legacy_socketReceives env s bytes r = Some r'
              \<and> qfiles r' = qfiles r
              \<and> sockets r' s = Some (sk\<lparr>readBuffer := []\<rparr>)
              \<and> pendingFiles r' s =
                  Some (fi\<lparr>fd_totalReceived := fd_totalReceived fi + int (length (readBuffer sk @ bytes))\<rparr>)"
    using assms by (simp add: Legacy_socketReceives_def Legacy_onReadyRead_def Let_def)
  from kept later legacy show ?thesis by simp
qed

theorem C2_witness:
  "socketReceives exampleReceiverEnv 1 ''AB'' receiverAwaitingAccept =
     receiverAwaitingAccept\<lparr>sockets :=
       [1 \<mapsto> \<lparr>peerAddress = ''10.0.0.2'', readBuffer = ''AB'', disconnectRequested = False\<rparr>]\<rparr>
   \<and> qfiles (socketReceives exampleReceiverEnv 1 ''CD''
        (setFile (Some 1) (Some 7)
           (socketReceives exampleReceiverEnv 1 ''AB'' receiverAwaitingAccept))) 7 =
     Some \<lparr>isOpen = True, contents = ''AB'' @ ''CD'', writeFails = False\<rparr>
   \<and> (\<exists>r'. Legacy_socketReceives exampleReceiverEnv 1 ''AB'' receiverAwaitingAccept = Some r'
          \<and> qfiles r' = qfiles receiverAwaitingAccept
          \<and> sockets r' 1 = Some \<lparr>peerAddress = ''10.0.0.2'', readBuffer = [], disconnectRequested = False\<rparr>
          \<and> pendingFiles r' 1 =
              Some \<lparr>fd_file = None, fd_name = ''a.txt'', fd_size = 4, fd_totalReceived = 2\<rparr>)"
proof -
  let ?sk = "\<lparr>peerAddress = ''10.0.0.2'', readBuffer = [], disconnectRequested = False\<rparr>"
  let ?fi = "\<lparr>fd_file = None, fd_name = ''a.txt'', fd_size = 4, fd_totalReceived = 0\<rparr>"
  let ?qf = "\<lparr>isOpen = True, contents = [], writeFails = False\<rparr>"
  have sk: "sockets receiverAwaitingAccept 1 = Some ?sk"
    and fi: "pendingFiles receiverAwaitingAccept 1 = Some ?fi"
    and nofile: "fd_file ?fi = None"
    and qf: "qfiles receiverAwaitingAccept 7 = Some ?qf"
    by (simp_all add: receiverAwaitingAccept_def)
  note inst = C2_bytes_before_accept [OF sk fi nofile, where env = exampleReceiverEnv
      and bytes = "''AB''" and f = 7 and qf = ?qf and later = "''CD''"]
  have a: "socketReceives exampleReceiverEnv 1 ''AB'' receiverAwaitingAccept =
     receiverAwaitingAccept\<lparr>sockets :=
       [1 \<mapsto> \<lparr>peerAddress = ''10.0.0.2'', readBuffer = ''AB'', disconnectRequested = False\<rparr>]\<rparr>"
    using inst [THEN conjunct1] by (simp add: receiverAwaitingAccept_def)
  have b: "qfiles (socketReceives exampleReceiverEnv 1 ''CD''
        (setFile (Some 1) (Some 7)
           (socketReceives exampleReceiverEnv 1 ''AB'' receiverAwaitingAccept))) 7 =
     Some \<lparr>isOpen = True, contents = ''AB'' @ ''CD'', writeFails = False\<rparr>"
    using inst [THEN conjunct2, THEN conjunct1] qf by simp
  have c: "\<exists>r'. Legacy_socketReceives exampleReceiverEnv 1 ''AB'' receiverAwaitingAccept = Some r'
          \<and> qfiles r' = qfiles receiverAwaitingAccept
          \<and> sockets r' 1 = Some \<lparr>peerAddress = ''10.0.0.2'', readBuffer = [], disconnectRequested = False\<rparr>
          \<and> pendingFiles r' 1 =
              Some \<lparr>fd_file = None, fd_name = ''a.txt'', fd_size = 4, fd_totalReceived = 2\<rparr>"
    using inst [THEN conjunct2, THEN conjunct2] by simp
  from a b c show ?thesis by (intro conjI)
qed

text \<open>
  C2 as stated fails in \<^verbatim>\<open>landrop-plus\<close>: two bytes arrive before the transfer is
  accepted, the file is attached, two more bytes arrive, and the destination file
  holds all four. The first two were kept in the socket and written after the
  handle was attached.
\<close>

theorem C2_counterexample:
  "qfiles (socketReceives exampleReceiverEnv 1 ''AB'' receiverAwaitingAccept) 7 =
     Some \<lparr>isOpen = True, contents = [], writeFails = False\<rparr>
   \<and> sockets (socketReceives exampleReceiverEnv 1 ''AB'' receiverAwaitingAccept) 1 =
     Some \<lparr>peerAddress = ''10.0.0.2'', readBuffer = ''AB'', disconnectRequested = False\<rparr>
   \<and> qfiles (socketReceives exampleReceiverEnv 1 ''CD''
        (setFile (Some 1) (Some 7)
           (socketReceives exampleReceiverEnv 1 ''AB'' receiverAwaitingAccept))) 7 =
     Some \<lparr>isOpen = True, contents = ''ABCD'', writeFails = False\<rparr>"
  by (simp add: socketReceives_def Receiver_onReadyRead_def setFile_def receiverAwaitingAccept_def
      Let_def disconnectFromHost_def exampleReceiverEnv_def)

subsection \<open>FileTransferManager: Sender signals and session transitions\<close>

lemma updateSessionStatus_session:
  "sessions m k = Some sess \<Longrightarrow>
   sessions (updateSessionStatus k st m) k = Some (sess\<lparr>ts_status := st\<rparr>)"
  by (simp add: updateSessionStatus_def)

lemma updateSessionProgress_session:
  "sessions m k = Some sess \<Longrightarrow>
   sessions (updateSessionProgress k p m) k = Some (sess\<lparr>ts_progress := p\<rparr>)"
  by (simp add: updateSessionProgress_def)

lemma scheduleCleanup_sessions: "sessions (scheduleCleanup delay sender k m) = sessions m"
  by (simp add: scheduleCleanup_def)

text \<open>
  C5. For a session of the table whose Sender is in \<open>senderToSession\<close>, the slots
  connected to the Sender's signals change the session as follows: accepted sets
  IN_PROGRESS, refused sets CANCELLED, progress stores the value, finished sets
  FINISHED, and error sets ERROR exactly when the status is neither FINISHED nor
  CANCELLED, and leaves the session as it is otherwise.
\<close>

theorem C5_sender_signals_drive_session:
  assumes "senderToSession m sender = Some k" and "sessions m k = Some sess"
  shows "sessions (onSenderSignal sender S_transferAccepted m) k = Some (sess\<lparr>ts_status := IN_PROGRESS\<rparr>)
       \<and> sessions (onSenderSignal sender S_transferRefused m) k = Some (sess\<lparr>ts_status := CANCELLED\<rparr>)
       \<and> sessions (onSenderSignal sender (S_progressUpdated p) m) k = Some (sess\<lparr>ts_progress := p\<rparr>)
       \<and> sessions (onSenderSignal sender S_transferFinished m) k = Some (sess\<lparr>ts_status := FINISHED\<rparr>)
       \<and> sessions (onSenderSignal sender S_transferError m) k =
           (if ts_status sess \<noteq> FINISHED \<and> ts_status sess \<noteq> CANCELLED
            then Some (sess\<lparr>ts_status := ERROR\<rparr>) else Some sess)"
  using assms
  by (simp add: onSenderTransferAccepted_def onSenderTransferRefused_def onSenderProgressUpdated_def
      onSenderTransferFinished_def onSenderTransferError_def scheduleCleanup_sessions
      updateSessionStatus_session updateSessionProgress_session)

theorem C5_witness:
  "ts_status (the (sessions (onSenderSignal 0 S_transferAccepted (managerWithSession WAITING)) 1)) = IN_PROGRESS
   \<and> ts_status (the (sessions (onSenderSignal 0 S_transferRefused (managerWithSession WAITING)) 1)) = CANCELLED
   \<and> ts_progress (the (sessions (onSenderSignal 0 (S_progressUpdated 40) (managerWithSession IN_PROGRESS)) 1)) = 40
   \<and> ts_status (the (sessions (onSenderSignal 0 S_transferFinished (managerWithSession IN_PROGRESS)) 1)) = FINISHED
   \<and> ts_status (the (sessions (onSenderSignal 0 S_transferError (managerWithSession IN_PROGRESS)) 1)) = ERROR
   \<and> ts_status (the (sessions (onSenderSignal 0 S_transferError (managerWithSession FINISHED)) 1)) = FINISHED
   \<and> ts_status (the (sessions (onSenderSignal 0 S_transferError (managerWithSession CANCELLED)) 1)) = CANCELLED"
proof -
  have hyp: "senderToSession (managerWithSession st) 0 = Some 1"
    "sessions (managerWithSession st) 1 = Some (exampleSession st)" for st
    by (simp_all add: managerWithSession_def newFileTransferManager_def)
  from C5_sender_signals_drive_session [OF hyp, of WAITING 40]
    C5_sender_signals_drive_session [OF hyp, of IN_PROGRESS 40]
    C5_sender_signals_drive_session [OF hyp, of FINISHED 40]
    C5_sender_signals_drive_session [OF hyp, of CANCELLED 40]
  show ?thesis by (simp add: exampleSession_def)
qed


subsection \<open>FileTransferManager: the batch timer\<close>

lemma onReceiverFileTransferRequested_fields:
  "m_emitted (onReceiverFileTransferRequested now fileName sizeText sock m) =
     m_emitted m @ incomingSignals (nextSessionId m) fileName"
  "pendingBatchFiles (onReceiverFileTransferRequested now fileName sizeText sock m) =
     AList.update fileName (toLongLong sizeText) (pendingBatchFiles m)"
  "pendingBatchSockets (onReceiverFileTransferRequested now fileName sizeText sock m) =
     AList.update fileName sock (pendingBatchSockets m)"
  "batchTimer (onReceiverFileTransferRequested now fileName sizeText sock m) = Some (now + 200)"
  "nextSessionId (onReceiverFileTransferRequested now fileName sizeText sock m) = nextSessionId m + 1"
  by (simp_all add: onReceiverFileTransferRequested_def createTransferSession_def
      updateSessionStatus_def incomingSignals_def Let_def)

lemma timePasses_not_due:
  "batchTimer m = Some due \<Longrightarrow> now < due \<Longrightarrow> timePasses now m = m"
  by (simp add: timePasses_def)

lemma timePasses_due:
  "batchTimer m = Some due \<Longrightarrow> due \<le> now \<Longrightarrow>
   timePasses now m =
     m\<lparr>batchTimer := None,
       m_emitted := m_emitted m @ [M_batchTransferRequested (pendingBatchFiles m) (pendingBatchSockets m)],
       pendingBatchFiles := [], pendingBatchSockets := []\<rparr>"
  by (simp add: timePasses_def onBatchTimeout_def)

text \<open>
  C9. Two \<^verbatim>\<open>fileTransferRequested\<close> signals for distinct file names reach the
  manager at times \<open>t1 \<le> t2\<close> less than 200 ms apart, with the event loop running
  the timers at \<open>t2\<close> before the second one, and again at some time \<open>t3\<close> at least
  200 ms after the second. The batch timer does not fire in between; the signals
  emitted since the start are the two session announcements followed by exactly
  one batch offer; the offer maps both file names to their sizes and to their
  sockets; and after the flush the pending batch is empty and the timer is idle.
\<close>

theorem C9_two_offers_in_window_one_batch:
  assumes "fn1 \<noteq> fn2" and "t1 \<le> t2" and "t2 < t1 + 200" and "t2 + 200 \<le> t3"
    and "m1 = onReceiverFileTransferRequested t1 fn1 size1 sock1 m"
    and "m2 = onReceiverFileTransferRequested t2 fn2 size2 sock2 (timePasses t2 m1)"
    and "m3 = timePasses t3 m2"
  shows "timePasses t2 m1 = m1
       \<and> (\<exists>files socks.
            m_emitted m3 = m_emitted m @ incomingSignals (nextSessionId m) fn1 @
              incomingSignals (nextSessionId m + 1) fn2 @ [M_batchTransferRequested files socks]
            \<and> filter isBatchSignal (drop (length (m_emitted m)) (m_emitted m3)) =
                [M_batchTransferRequested files socks]
            \<and> map_of files fn1 = Some (toLongLong size1) \<and> map_of files fn2 = Some (toLongLong size2)
            \<and> map_of socks fn1 = Some sock1 \<and> map_of socks fn2 = Some sock2)
       \<and> pendingBatchFiles m3 = [] \<and> pendingBatchSockets m3 = [] \<and> batchTimer m3 = None"
proof -
  have quiet: "timePasses t2 m1 = m1"
    using assms(3,5) by (intro timePasses_not_due [where due = "t1 + 200"])
      (simp_all add: onReceiverFileTransferRequested_fields)
  have timer2: "batchTimer m2 = Some (t2 + 200)"
    using assms(6) by (simp add: onReceiverFileTransferRequested_fields)
  let ?files = "AList.update fn2 (toLongLong size2) (AList.update fn1 (toLongLong size1) (pendingBatchFiles m))"
  let ?socks = "AList.update fn2 sock2 (AList.update fn1 sock1 (pendingBatchSockets m))"
  have files2: "pendingBatchFiles m2 = ?files" and socks2: "pendingBatchSockets m2 = ?socks"
    and sigs2: "m_emitted m2 = m_emitted m @ incomingSignals (nextSessionId m) fn1 @
              incomingSignals (nextSessionId m + 1) fn2"
    using assms(5,6) quiet by (simp_all add: onReceiverFileTransferRequested_fields)
  have m3: "m3 = m2\<lparr>batchTimer := None,
       m_emitted := m_emitted m2 @ [M_batchTransferRequested ?files ?socks],
       pendingBatchFiles := [], pendingBatchSockets := []\<rparr>"
    using timePasses_due [OF timer2 assms(4)] assms(7) files2 socks2 by simp
  have sigs3: "m_emitted m3 = m_emitted m @ incomingSignals (nextSessionId m) fn1 @
              incomingSignals (nextSessionId m + 1) fn2 @ [M_batchTransferRequested ?files ?socks]"
    using m3 sigs2 by simp
  have one: "filter isBatchSignal (drop (length (m_emitted m)) (m_emitted m3)) =
                [M_batchTransferRequested ?files ?socks]"
    unfolding sigs3 by (simp add: incomingSignals_def isBatchSignal_def)
  have maps: "map_of ?files fn1 = Some (toLongLong size1)" "map_of ?files fn2 = Some (toLongLong size2)"
    "map_of ?socks fn1 = Some sock1" "map_of ?socks fn2 = Some sock2"
    using assms(1) by (simp_all add: update_conv')
  from quiet sigs3 one maps m3 show ?thesis by simp
qed

theorem C9_witness:
  "m_emitted (timePasses 350
      (onReceiverFileTransferRequested 150 ''b.txt'' ''20'' 2
         (timePasses 150
            (onReceiverFileTransferRequested 0 ''a.txt'' ''10'' 1 newFileTransferManager)))) =
     [M_transferSessionCreated 1 ''a.txt'' ''Incoming'', M_transferStatusChanged 1 WAITING,
      M_transferSessionCreated 2 ''b.txt'' ''Incoming'', M_transferStatusChanged 2 WAITING,
      M_batchTransferRequested [(''a.txt'', 10), (''b.txt'', 20)] [(''a.txt'', 1), (''b.txt'', 2)]]
   \<and> pendingBatchFiles (timePasses 350
      (onReceiverFileTransferRequested 150 ''b.txt'' ''20'' 2
         (timePasses 150
            (onReceiverFileTransferRequested 0 ''a.txt'' ''10'' 1 newFileTransferManager)))) = []"
proof -
  let ?m1 = "onReceiverFileTransferRequested 0 ''a.txt'' ''10'' 1 newFileTransferManager"
  let ?m2 = "onReceiverFileTransferRequested 150 ''b.txt'' ''20'' 2 (timePasses 150 ?m1)"
  let ?m3 = "timePasses 350 ?m2"
  have ne: "''a.txt'' \<noteq> ''b.txt''" by simp
  have times: "(0::int) \<le> 150" "(150::int) < 0 + 200" "(150::int) + 200 \<le> 350" by simp_all
  note inst = C9_two_offers_in_window_one_batch [OF ne times refl refl refl,
      where m = newFileTransferManager and ?size1.0 = "''10''" and ?size2.0 = "''20''"
        and ?sock1.0 = 1 and ?sock2.0 = 2]
  from inst have empty: "pendingBatchFiles ?m3 = []" by blast
  from inst have quiet: "timePasses 150 ?m1 = ?m1" by blast
  from inst obtain files socks where
    sigs: "m_emitted ?m3 = m_emitted newFileTransferManager @
        incomingSignals (nextSessionId newFileTransferManager) ''a.txt'' @
        incomingSignals (nextSessionId newFileTransferManager + 1) ''b.txt'' @
        [M_batchTransferRequested files socks]"
    by blast
  have direct: "pendingBatchFiles ?m2 = [(''a.txt'', 10), (''b.txt'', 20)]"
    "pendingBatchSockets ?m2 = [(''a.txt'', 1), (''b.txt'', 2)]"
    "batchTimer ?m2 = Some 350"
    unfolding quiet
    by (simp_all add: onReceiverFileTransferRequested_fields newFileTransferManager_def
        toLongLong_def parseInteger_def trimmed_def isSpace_def isDigit_def Let_def)
  have last: "last (m_emitted ?m3) =
      M_batchTransferRequested [(''a.txt'', 10), (''b.txt'', 20)] [(''a.txt'', 1), (''b.txt'', 2)]"
    using direct by (simp add: timePasses_def onBatchTimeout_def)
  from sigs last have "M_batchTransferRequested files socks =
      M_batchTransferRequested [(''a.txt'', 10), (''b.txt'', 20)] [(''a.txt'', 1), (''b.txt'', 2)]"
    by simp
  with sigs empty show ?thesis
    by (simp add: newFileTransferManager_def incomingSignals_def)
qed

subsection \<open>FileTransferManager: sendFilesToUsers\<close>

lemma sendFileToUser_fields:
  "nextSessionId (sendFileToUser env port filePath user m) = nextSessionId m + 1"
  "nextSender (sendFileToUser env port filePath user m) = Suc (nextSender m)"
  "m_emitted (sendFileToUser env port filePath user m) =
     m_emitted m @ [M_transferSessionCreated (nextSessionId m) (outboundName filePath user) (ipAddress user)]"
  "sessions (sendFileToUser env port filePath user m) =
     (sessions m)(nextSessionId m \<mapsto> outboundSession (nextSessionId m) (nextSender m) filePath user)"
  "senders (sendFileToUser env port filePath user m) =
     (senders m)(nextSender m \<mapsto>
        Sender_sendFile env filePath (ipAddress user) (transferPort user) (newSender port))"
  "senderToSession (sendFileToUser env port filePath user m) =
     (senderToSession m)(nextSender m \<mapsto> nextSessionId m)"
  by (simp_all add: sendFileToUser_def createTransferSession_def outboundName_def
      outboundSession_def Let_def)

lemma sendFile_missing_source:
  "fileContents env filePath = None \<Longrightarrow>
   Sender_sendFile env filePath ip port (newSender configPort) = idleSender filePath port"
  by (simp add: Sender_sendFile_def newSender_def reset_def idleSender_def)

lemma idleSender_step: "senderStep env (idleSender filePath port) i = idleSender filePath port"
  by (cases i) (simp_all add: idleSender_def)

lemma idleSender_run: "senderRun env (idleSender filePath port) ins = idleSender filePath port"
  unfolding senderRun_def by (induction ins) (simp_all add: idleSender_step)

lemma sendFilesToUsers_pairs:
  "sendFilesToUsers env port filePaths recipients m =
     foldl (sendPair env port) m (List.product filePaths recipients)"
proof -
  have inner: "foldl (\<lambda>m2 user. sendFileToUser env port f user m2) m0 us =
               foldl (sendPair env port) m0 (map (Pair f) us)" for f m0 us
    by (induction us arbitrary: m0) (simp_all add: sendPair_def)
  show ?thesis unfolding sendFilesToUsers_def
    by (induction filePaths arbitrary: m) (simp_all add: inner)
qed

lemma sendPairs_counters:
  "nextSessionId (foldl (sendPair env port) m ps) = nextSessionId m + int (length ps)"
  "nextSender (foldl (sendPair env port) m ps) = nextSender m + length ps"
  by (induction ps arbitrary: m) (simp_all add: sendPair_def sendFileToUser_fields)

lemma sendPairs_signals:
  "m_emitted (foldl (sendPair env port) m ps) =
     m_emitted m @
     map (\<lambda>n. M_transferSessionCreated (nextSessionId m + int n)
                (outboundName (fst (ps ! n)) (snd (ps ! n))) (ipAddress (snd (ps ! n))))
       [0..<length ps]"
proof (induction ps rule: rev_induct)
  case Nil
  then show ?case by simp
next
  case (snoc p ps)
  have same: "map (\<lambda>n. M_transferSessionCreated (nextSessionId m + int n)
                (outboundName (fst ((ps @ [p]) ! n)) (snd ((ps @ [p]) ! n)))
                (ipAddress (snd ((ps @ [p]) ! n)))) [0..<length ps] =
        map (\<lambda>n. M_transferSessionCreated (nextSessionId m + int n)
                (outboundName (fst (ps ! n)) (snd (ps ! n))) (ipAddress (snd (ps ! n))))
          [0..<length ps]"
    by (rule map_cong) (simp_all add: nth_append)
  show ?case
    by (simp add: sendPair_def sendFileToUser_fields sendPairs_counters [unfolded sendPair_def]
        snoc [unfolded sendPair_def] same)
qed

lemma sendPairs_nth:
  assumes "n < length ps"
  shows "sessions (foldl (sendPair env port) m ps) (nextSessionId m + int n) =
           Some (outboundSession (nextSessionId m + int n) (nextSender m + n) (fst (ps ! n)) (snd (ps ! n)))
       \<and> senders (foldl (sendPair env port) m ps) (nextSender m + n) =
           Some (Sender_sendFile env (fst (ps ! n)) (ipAddress (snd (ps ! n)))
                   (transferPort (snd (ps ! n))) (newSender port))"
  using assms
proof (induction ps rule: rev_induct)
  case Nil
  then show ?case by simp
next
  case (snoc p ps)
  show ?case
  proof (cases "n < length ps")
    case True
    from snoc.IH [OF True] True show ?thesis
      by (simp add: sendPair_def sendFileToUser_fields sendPairs_counters [unfolded sendPair_def]
          nth_append)
  next
    case False
    with snoc.prems have "n = length ps" by simp
    then show ?thesis
      by (simp add: sendPair_def sendFileToUser_fields sendPairs_counters [unfolded sendPair_def])
  qed
qed


text \<open>
  C1, as the code has it. \<^verbatim>\<open>sendFilesToUsers\<close> creates the session and emits
  \<^verbatim>\<open>transferSessionCreated\<close> for every pair before it calls \<^verbatim>\<open>sendFile\<close>, whether
  the source file exists or not: the call emits one signal per pair, and the pair
  at position \<open>n\<close> of the loops gets session \<open>nextSessionId + n\<close>, in status WAITING
  with progress 0, and a Sender on which \<^verbatim>\<open>sendFile\<close> has been called. Only when the
  source file of that pair does not exist is that Sender a silent no-op: it holds
  no socket, runs no timer, has emitted nothing, and no input changes it, so no
  signal of it ever reaches the manager, and after any sequence of its socket and
  timer events the manager is as the call left it.
\<close>

theorem C1_missing_source_still_creates_session:
  assumes "n < length filePaths * length recipients"
    and "filePath = filePaths ! (n div length recipients)"
    and "user = recipients ! (n mod length recipients)"
    and "m' = sendFilesToUsers env port filePaths recipients m"
  shows "sessions m' (nextSessionId m + int n) =
           Some (outboundSession (nextSessionId m + int n) (nextSender m + n) filePath user)
       \<and> m_emitted m' ! (length (m_emitted m) + n) =
           M_transferSessionCreated (nextSessionId m + int n) (outboundName filePath user) (ipAddress user)
       \<and> length (m_emitted m') = length (m_emitted m) + length filePaths * length recipients
       \<and> senders m' (nextSender m + n) =
           Some (Sender_sendFile env filePath (ipAddress user) (transferPort user) (newSender port))
       \<and> (fileContents env filePath = None \<longrightarrow>
             senders m' (nextSender m + n) = Some (idleSender filePath (transferPort user))
           \<and> (\<forall>ins. senderRun env (idleSender filePath (transferPort user)) ins =
                      idleSender filePath (transferPort user))
           \<and> (\<forall>i. sessions (senderInput env (nextSender m + n) i m') = sessions m'
                  \<and> m_emitted (senderInput env (nextSender m + n) i m') = m_emitted m')
           \<and> (\<forall>ins. foldl (\<lambda>acc i. senderInput env (nextSender m + n) i acc) m' ins = m'))"
proof -
  let ?ps = "List.product filePaths recipients"
  have m': "m' = foldl (sendPair env port) m ?ps"
    using assms(4) by (simp add: sendFilesToUsers_pairs)
  have n: "n < length ?ps" using assms(1) by simp
  have pair: "?ps ! n = (filePath, user)"
    using assms(1,2,3) by (simp add: product_nth)
  from sendPairs_nth [OF n, of env port m] pair
  have sess: "sessions m' (nextSessionId m + int n) =
           Some (outboundSession (nextSessionId m + int n) (nextSender m + n) filePath user)"
    and sender: "senders m' (nextSender m + n) =
           Some (Sender_sendFile env filePath (ipAddress user) (transferPort user) (newSender port))"
    unfolding m' by simp_all
  have sig: "m_emitted m' ! (length (m_emitted m) + n) =
           M_transferSessionCreated (nextSessionId m + int n) (outboundName filePath user) (ipAddress user)"
    unfolding m' sendPairs_signals using n pair by (simp add: nth_append)
  have len: "length (m_emitted m') = length (m_emitted m) + length filePaths * length recipients"
    unfolding m' sendPairs_signals by simp
  have silent: "senders m' (nextSender m + n) = Some (idleSender filePath (transferPort user))
           \<and> (\<forall>ins. senderRun env (idleSender filePath (transferPort user)) ins =
                      idleSender filePath (transferPort user))
           \<and> (\<forall>i. sessions (senderInput env (nextSender m + n) i m') = sessions m'
                  \<and> m_emitted (senderInput env (nextSender m + n) i m') = m_emitted m')
           \<and> (\<forall>ins. foldl (\<lambda>acc i. senderInput env (nextSender m + n) i acc) m' ins = m')"
    if missing: "fileContents env filePath = None"
  proof -
    have idle: "senders m' (nextSender m + n) = Some (idleSender filePath (transferPort user))"
      using sender sendFile_missing_source [OF missing] by simp
    have same: "senderInput env (nextSender m + n) i m' = m'" for i
      using idle by (simp add: senderInput_def idleSender_step Let_def fun_upd_idem)
    have later: "foldl (\<lambda>acc i. senderInput env (nextSender m + n) i acc) m' ins = m'" for ins
      by (induction ins) (simp_all add: same)
    from idle same later idleSender_run show ?thesis by simp
  qed
  from sess sig len sender silent show ?thesis by blast
qed

theorem C1_witness:
  "fileContents (oneFile ''0123456789'' 4) ''/tmp/a.txt'' = Some ''0123456789''
   \<and> fileContents (oneFile ''0123456789'' 4) ''/tmp/missing.txt'' = None
   \<and> sessions (sendFilesToUsers (oneFile ''0123456789'' 4) 5556 [''/tmp/a.txt'', ''/tmp/missing.txt'']
        [exampleUser, otherUser] (managerWithSession IN_PROGRESS)) 2 =
       Some \<lparr>ts_id = 2, ts_fileName = ''a.txt @10.0.0.2'', ts_recipientIP = ''10.0.0.2'',
             ts_status = WAITING, ts_progress = 0, ts_sender = Some 1\<rparr>
   \<and> m_emitted (sendFilesToUsers (oneFile ''0123456789'' 4) 5556 [''/tmp/a.txt'', ''/tmp/missing.txt'']
        [exampleUser, otherUser] (managerWithSession IN_PROGRESS)) ! 0 =
       M_transferSessionCreated 2 ''a.txt @10.0.0.2'' ''10.0.0.2''
   \<and> sessions (sendFilesToUsers (oneFile ''0123456789'' 4) 5556 [''/tmp/a.txt'', ''/tmp/missing.txt'']
        [exampleUser, otherUser] (managerWithSession IN_PROGRESS)) 5 =
       Some \<lparr>ts_id = 5, ts_fileName = ''missing.txt @10.0.0.3'', ts_recipientIP = ''10.0.0.3'',
             ts_status = WAITING, ts_progress = 0, ts_sender = Some 4\<rparr>
   \<and> m_emitted (sendFilesToUsers (oneFile ''0123456789'' 4) 5556 [''/tmp/a.txt'', ''/tmp/missing.txt'']
        [exampleUser, otherUser] (managerWithSession IN_PROGRESS)) ! 3 =
       M_transferSessionCreated 5 ''missing.txt @10.0.0.3'' ''10.0.0.3''
   \<and> length (m_emitted (sendFilesToUsers (oneFile ''0123456789'' 4) 5556
        [''/tmp/a.txt'', ''/tmp/missing.txt''] [exampleUser, otherUser]
        (managerWithSession IN_PROGRESS))) = 4
   \<and> senders (sendFilesToUsers (oneFile ''0123456789'' 4) 5556 [''/tmp/a.txt'', ''/tmp/missing.txt'']
        [exampleUser, otherUser] (managerWithSession IN_PROGRESS)) 4 =
       Some \<lparr>s_socket = None,
             s_file = Some \<lparr>sf_path = ''/tmp/missing.txt'', sf_isOpen = False, sf_pos = 0\<rparr>,
             bytesSent = 0, s_port = 6000, connectionTimer = False, responseTimer = False,
             s_emitted = []\<rparr>
   \<and> senderInput (oneFile ''0123456789'' 4) 4 ConnectionTimeout
        (sendFilesToUsers (oneFile ''0123456789'' 4) 5556 [''/tmp/a.txt'', ''/tmp/missing.txt'']
           [exampleUser, otherUser] (managerWithSession IN_PROGRESS)) =
      sendFilesToUsers (oneFile ''0123456789'' 4) 5556 [''/tmp/a.txt'', ''/tmp/missing.txt'']
        [exampleUser, otherUser] (managerWithSession IN_PROGRESS)"
proof -
  let ?env = "oneFile ''0123456789'' 4"
  let ?files = "[''/tmp/a.txt'', ''/tmp/missing.txt'']"
  let ?users = "[exampleUser, otherUser]"
  let ?m = "managerWithSession IN_PROGRESS"
  let ?after = "sendFilesToUsers ?env 5556 ?files ?users ?m"
  have present: "fileContents ?env ''/tmp/a.txt'' = Some ''0123456789''"
    and missing: "fileContents ?env ''/tmp/missing.txt'' = None"
    by (simp_all add: oneFile_def)
  have start: "nextSessionId ?m = 2" "nextSender ?m = 1" "m_emitted ?m = []"
    by (simp_all add: managerWithSession_def newFileTransferManager_def)
  have first: "(0::nat) < length ?files * length ?users"
    "''/tmp/a.txt'' = ?files ! (0 div length ?users)"
    "exampleUser = ?users ! (0 mod length ?users)"
    by simp_all
  have fourth: "(3::nat) < length ?files * length ?users"
    "''/tmp/missing.txt'' = ?files ! (3 div length ?users)"
    "otherUser = ?users ! (3 mod length ?users)"
    by (simp_all add: numeral_2_eq_2 [symmetric])
  note existing = C1_missing_source_still_creates_session [OF first refl,
      where env = ?env and port = 5556 and m = ?m, unfolded start]
  note absent = C1_missing_source_still_creates_session [OF fourth refl,
      where env = ?env and port = 5556 and m = ?m, unfolded start]
  from existing have a: "sessions ?after 2 =
       Some \<lparr>ts_id = 2, ts_fileName = ''a.txt @10.0.0.2'', ts_recipientIP = ''10.0.0.2'',
             ts_status = WAITING, ts_progress = 0, ts_sender = Some 1\<rparr>"
    and b: "m_emitted ?after ! 0 = M_transferSessionCreated 2 ''a.txt @10.0.0.2'' ''10.0.0.2''"
    by (simp_all add: outboundSession_def outboundName_def QFileInfo_fileName_def exampleUser_def)
  from absent have c: "sessions ?after 5 =
       Some \<lparr>ts_id = 5, ts_fileName = ''missing.txt @10.0.0.3'', ts_recipientIP = ''10.0.0.3'',
             ts_status = WAITING, ts_progress = 0, ts_sender = Some 4\<rparr>"
    and d: "m_emitted ?after ! 3 = M_transferSessionCreated 5 ''missing.txt @10.0.0.3'' ''10.0.0.3''"
    and e: "length (m_emitted ?after) = 4"
    by (simp_all add: outboundSession_def outboundName_def QFileInfo_fileName_def otherUser_def)
  from absent [THEN conjunct2, THEN conjunct2, THEN conjunct2, THEN conjunct2, THEN mp, OF missing]
  have quiet: "senders ?after 4 = Some (idleSender ''/tmp/missing.txt'' (transferPort otherUser))"
    and later: "\<forall>ins. foldl (\<lambda>acc i. senderInput ?env 4 i acc) ?after ins = ?after"
    by simp_all
  from quiet have f: "senders ?after 4 =
       Some \<lparr>s_socket = None,
             s_file = Some \<lparr>sf_path = ''/tmp/missing.txt'', sf_isOpen = False, sf_pos = 0\<rparr>,
             bytesSent = 0, s_port = 6000, connectionTimer = False, responseTimer = False,
             s_emitted = []\<rparr>"
    by (simp add: idleSender_def otherUser_def)
  from later [rule_format, of "[ConnectionTimeout]"]
  have g: "senderInput ?env 4 ConnectionTimeout ?after = ?after" by simp
  from present missing a b c d e f g show ?thesis by (intro conjI)
qed

text \<open>
  C1 as stated fails: the only file of the call does not exist, and yet after the
  call the session table holds a session for the pair and the one signal emitted
  is its \<^verbatim>\<open>transferSessionCreated\<close>.
\<close>

theorem C1_counterexample:
  "fileContents noFiles ''/tmp/missing.txt'' = None
   \<and> sessions (sendFilesToUsers noFiles 5556 [''/tmp/missing.txt''] [exampleUser] newFileTransferManager) 1 =
       Some \<lparr>ts_id = 1, ts_fileName = ''missing.txt @10.0.0.2'', ts_recipientIP = ''10.0.0.2'',
             ts_status = WAITING, ts_progress = 0, ts_sender = Some 0\<rparr>
   \<and> m_emitted (sendFilesToUsers noFiles 5556 [''/tmp/missing.txt''] [exampleUser] newFileTransferManager) =
       [M_transferSessionCreated 1 ''missing.txt @10.0.0.2'' ''10.0.0.2'']"
  by (simp add: sendFilesToUsers_def sendFileToUser_def createTransferSession_def
      newFileTransferManager_def noFiles_def exampleUser_def QFileInfo_fileName_def Let_def)

subsection \<open>BroadcastDiscoveryService: self messages\<close>

text \<open>
  C6. A datagram whose sender address (after the \<^verbatim>\<open>::ffff:\<close> prefix is removed, as
  \<^verbatim>\<open>handleDiscoveryMessage\<close> does before it compares) is the local address, or whose
  host name field is the local host name, changes nothing: neither the request
  handler nor the response handler, nor \<^verbatim>\<open>handleDiscoveryMessage\<close> as a whole,
  touches the peer table, the last-seen times, the signals or the datagrams sent.
\<close>

theorem C6_self_messages_leave_peer_table:
  assumes "senderIP = localIPAddress env \<or>
           (4 \<le> length (split_on (CHR ''|'') message) \<and>
            split_on (CHR ''|'') message ! 3 = localHostname env)"
  shows "handleDiscoveryRequest env now message sender senderIP d = d
       \<and> handleDiscoveryResponse env now message senderIP d = d
       \<and> (cleanSenderIP sender = senderIP \<longrightarrow> handleDiscoveryMessage env now message sender d = d)"
  using assms
  by (auto simp: handleDiscoveryRequest_def handleDiscoveryResponse_def handleDiscoveryMessage_def
      isSelfMessage_def Let_def)

theorem C6_witness:
  "handleDiscoveryMessage exampleDiscoveryEnv 100000 ''LANDROP_DISCOVERY_V1|12346|5556|other|[]''
     ''::ffff:192.168.1.5'' exampleDiscovery = exampleDiscovery
   \<and> handleDiscoveryMessage exampleDiscoveryEnv 100000 ''LANDROP_RESPONSE_V1|12346|5556|me|[]''
     ''192.168.1.20'' exampleDiscovery = exampleDiscovery"
proof -
  have ip: "cleanSenderIP ''::ffff:192.168.1.5'' = ''192.168.1.5''"
    by (simp add: cleanSenderIP_def startsWith_def)
  have a: "''192.168.1.5'' = localIPAddress exampleDiscoveryEnv \<or>
           (4 \<le> length (split_on (CHR ''|'') ''LANDROP_DISCOVERY_V1|12346|5556|other|[]'') \<and>
            split_on (CHR ''|'') ''LANDROP_DISCOVERY_V1|12346|5556|other|[]'' ! 3 =
              localHostname exampleDiscoveryEnv)"
    by (simp add: exampleDiscoveryEnv_def)
  have b: "''192.168.1.20'' = localIPAddress exampleDiscoveryEnv \<or>
           (4 \<le> length (split_on (CHR ''|'') ''LANDROP_RESPONSE_V1|12346|5556|me|[]'') \<and>
            split_on (CHR ''|'') ''LANDROP_RESPONSE_V1|12346|5556|me|[]'' ! 3 =
              localHostname exampleDiscoveryEnv)"
    by (simp add: exampleDiscoveryEnv_def)
  have ip2: "cleanSenderIP ''192.168.1.20'' = ''192.168.1.20''"
    by (simp add: cleanSenderIP_def startsWith_def)
  from C6_self_messages_leave_peer_table [OF a, of 100000 "''::ffff:192.168.1.5''" exampleDiscovery]
    C6_self_messages_leave_peer_table [OF b, of 100000 "''192.168.1.20''" exampleDiscovery]
    ip ip2
  show ?thesis by simp
qed


subsection \<open>BroadcastDiscoveryService: the cleanup tick\<close>

lemma cleanupBody_at:
  "cleanupBody env now (length xs) (xs @ x # post, seen, f) =
     (if isSelfEntry env x \<or> isExpired now seen x
      then (xs @ post, seen(ipAddress x := None), True)
      else (xs @ x # post, seen, f))"
  by (simp add: cleanupBody_def isSelfEntry_def isExpired_def timeSinceLastSeen_def Let_def)

lemma saneTimes_erase: "saneTimes seen \<Longrightarrow> saneTimes (seen(ip := None))"
  by (simp add: saneTimes_def)

lemma isExpired_after_erase:
  assumes "saneTimes seen" and "isExpired now seen u"
  shows "isExpired now (seen(ip := None)) u"
proof (cases "ipAddress u = ip")
  case True
  have "0 \<le> (case seen (ipAddress u) of None \<Rightarrow> 0 | Some t \<Rightarrow> t)"
    using assms(1) by (auto simp: saneTimes_def split: option.splits)
  with assms(2) True show ?thesis
    by (simp add: isExpired_def timeSinceLastSeen_def)
next
  case False
  with assms(2) show ?thesis
    by (simp add: isExpired_def timeSinceLastSeen_def)
qed

text \<open>
  The loop over the indices of \<open>pre\<close>, from the last one down, leaves \<open>post\<close> alone
  and keeps of \<open>pre\<close> only entries that are neither self entries nor expired.
\<close>

lemma cleanupLoop_sweep:
  assumes "saneTimes seen"
  shows "\<exists>pre' seen' f'.
      cleanupLoop env now (length pre) (pre @ post, seen, f) = (pre' @ post, seen', f')
    \<and> set pre' \<subseteq> set pre
    \<and> (\<forall>u\<in>set pre. isSelfEntry env u \<or> isExpired now seen u \<longrightarrow>
          u \<notin> set pre' \<and> seen' (ipAddress u) = None)
    \<and> (\<forall>ip. seen' ip = None \<or> seen' ip = seen ip)
    \<and> length pre' \<le> length pre
    \<and> (f' = (f \<or> length pre' < length pre))"
  using assms
proof (induction pre arbitrary: post seen f rule: rev_induct)
  case Nil
  then show ?case by simp
next
  case (snoc x xs)
  show ?case
  proof (cases "isSelfEntry env x \<or> isExpired now seen x")
    case True
    let ?seen1 = "seen(ipAddress x := None)"
    have step: "cleanupLoop env now (length (xs @ [x])) ((xs @ [x]) @ post, seen, f) =
                cleanupLoop env now (length xs) (xs @ post, ?seen1, True)"
      using True by (simp add: cleanupBody_at)
    from snoc.IH [OF saneTimes_erase [OF snoc.prems, of "ipAddress x"], where post = post and f = True]
    obtain pre' seen' f' where
      run: "cleanupLoop env now (length xs) (xs @ post, ?seen1, True) = (pre' @ post, seen', f')"
      and sub: "set pre' \<subseteq> set xs"
      and gone: "\<forall>u\<in>set xs. isSelfEntry env u \<or> isExpired now ?seen1 u \<longrightarrow>
          u \<notin> set pre' \<and> seen' (ipAddress u) = None"
      and mono: "\<forall>ip. seen' ip = None \<or> seen' ip = ?seen1 ip"
      and len: "length pre' \<le> length xs"
      and flag: "f' = (True \<or> length pre' < length xs)"
      by blast
    have gone': "u \<notin> set pre' \<and> seen' (ipAddress u) = None"
      if "u \<in> set (xs @ [x])" and "isSelfEntry env u \<or> isExpired now seen u" for u
    proof (cases "u \<in> set xs")
      case True
      from that(2) have "isSelfEntry env u \<or> isExpired now ?seen1 u"
        using isExpired_after_erase [OF snoc.prems] by blast
      with gone True show ?thesis by blast
    next
      case False
      with that(1) have ux: "u = x" by simp
      from False sub have "u \<notin> set pre'" by blast
      moreover from mono have "seen' (ipAddress x) = None"
        by (metis fun_upd_same)
      ultimately show ?thesis using ux by simp
    qed
    have mono': "\<forall>ip. seen' ip = None \<or> seen' ip = seen ip"
      using mono by (metis fun_upd_apply)
    show ?thesis
      apply (rule exI [of _ pre'], rule exI [of _ seen'], rule exI [of _ f'])
      using step run sub gone' mono' len flag by auto
  next
    case False
    have step: "cleanupLoop env now (length (xs @ [x])) ((xs @ [x]) @ post, seen, f) =
                cleanupLoop env now (length xs) (xs @ x # post, seen, f)"
      using False by (simp add: cleanupBody_at)
    from snoc.IH [OF snoc.prems, where post = "x # post" and f = f]
    obtain pre' seen' f' where
      run: "cleanupLoop env now (length xs) (xs @ x # post, seen, f) = (pre' @ x # post, seen', f')"
      and sub: "set pre' \<subseteq> set xs"
      and gone: "\<forall>u\<in>set xs. isSelfEntry env u \<or> isExpired now seen u \<longrightarrow>
          u \<notin> set pre' \<and> seen' (ipAddress u) = None"
      and mono: "\<forall>ip. seen' ip = None \<or> seen' ip = seen ip"
      and len: "length pre' \<le> length xs"
      and flag: "f' = (f \<or> length pre' < length xs)"
      by blast
    have gone': "u \<notin> set (pre' @ [x]) \<and> seen' (ipAddress u) = None"
      if "u \<in> set (xs @ [x])" and "isSelfEntry env u \<or> isExpired now seen u" for u
    proof -
      from that(2) False have "u \<noteq> x" by blast
      with that(1) have "u \<in> set xs" by simp
      with gone that(2) \<open>u \<noteq> x\<close> sub show ?thesis by auto
    qed
    show ?thesis
      apply (rule exI [of _ "pre' @ [x]"], rule exI [of _ seen'], rule exI [of _ f'])
      using step run sub gone' mono len flag by auto
  qed
qed

lemma saneTimes_updatePeer:
  "saneTimes (lastSeenTimes d) \<Longrightarrow> 0 \<le> now \<Longrightarrow>
   saneTimes (lastSeenTimes (updatePeerWithSharedFiles now user d))"
  by (simp add: saneTimes_def updatePeerWithSharedFiles_def Let_def)

lemma saneTimes_handleDiscoveryMessage:
  "saneTimes (lastSeenTimes d) \<Longrightarrow> 0 \<le> now \<Longrightarrow>
   saneTimes (lastSeenTimes (handleDiscoveryMessage env now message sender d))"
  by (simp add: handleDiscoveryMessage_def handleDiscoveryRequest_def handleDiscoveryResponse_def
      saneTimes_updatePeer Let_def)

text \<open>
  C7. A cleanup tick at time \<open>now\<close> removes from the peer table every entry whose time
  since it was last seen, \<open>now - lastSeen\<close>, exceeds 15000 ms, and every entry whose
  address or host name is the local one, together with its last-seen time; it
  adds no entry; and it emits \<^verbatim>\<open>userListUpdated\<close>, with the new table, exactly when
  the table became shorter. The stored times are times of the clock, so not
  negative.
\<close>

theorem C7_cleanup_removes_expired_and_self:
  assumes "saneTimes (lastSeenTimes d)" and "d' = cleanupExpiredUsers env now d"
  shows "(\<forall>u\<in>set (discoveredUsers d).
            isSelfEntry env u \<or> USER_TIMEOUT_MS < timeSinceLastSeen now (lastSeenTimes d) u \<longrightarrow>
            u \<notin> set (discoveredUsers d') \<and> lastSeenTimes d' (ipAddress u) = None)
       \<and> set (discoveredUsers d') \<subseteq> set (discoveredUsers d)
       \<and> d_emitted d' =
           d_emitted d @
           (if length (discoveredUsers d') < length (discoveredUsers d)
            then [D_userListUpdated (discoveredUsers d')] else [])"
proof -
  from cleanupLoop_sweep [OF assms(1), of env now "discoveredUsers d" "[]" False]
  obtain pre' seen' f' where
    run: "cleanupLoop env now (length (discoveredUsers d)) (discoveredUsers d, lastSeenTimes d, False) =
          (pre', seen', f')"
    and sub: "set pre' \<subseteq> set (discoveredUsers d)"
    and gone: "\<forall>u\<in>set (discoveredUsers d). isSelfEntry env u \<or> isExpired now (lastSeenTimes d) u \<longrightarrow>
          u \<notin> set pre' \<and> seen' (ipAddress u) = None"
    and flag: "f' = (False \<or> length pre' < length (discoveredUsers d))"
    by auto
  have users: "discoveredUsers d' = pre'" and seen: "lastSeenTimes d' = seen'"
    and sigs: "d_emitted d' = d_emitted d @ (if f' then [D_userListUpdated pre'] else [])"
    using assms(2) run by (simp_all add: cleanupExpiredUsers_def Let_def)
  from users seen sigs sub gone flag show ?thesis
    by (simp add: isExpired_def)
qed

theorem C7_witness:
  "saneTimes (lastSeenTimes exampleDiscovery)
   \<and> discoveredUsers (cleanupExpiredUsers exampleDiscoveryEnv 100000 exampleDiscovery) =
       [peerUser ''192.168.1.8'' ''fresh'']
   \<and> d_emitted (cleanupExpiredUsers exampleDiscoveryEnv 100000 exampleDiscovery) =
       [D_userListUpdated [peerUser ''192.168.1.8'' ''fresh'']]"
proof -
  have sane: "saneTimes (lastSeenTimes exampleDiscovery)"
    by (simp add: saneTimes_def exampleDiscovery_def)
  note inst = C7_cleanup_removes_expired_and_self [OF sane refl, of exampleDiscoveryEnv 100000]
  have users: "discoveredUsers (cleanupExpiredUsers exampleDiscoveryEnv 100000 exampleDiscovery) =
       [peerUser ''192.168.1.8'' ''fresh'']"
    by (simp add: cleanupExpiredUsers_def exampleDiscovery_def exampleDiscoveryEnv_def
        cleanupBody_def peerUser_def USER_TIMEOUT_MS_def Let_def numeral_3_eq_3)
  from inst have "d_emitted (cleanupExpiredUsers exampleDiscoveryEnv 100000 exampleDiscovery) =
      d_emitted exampleDiscovery @
           (if length (discoveredUsers (cleanupExpiredUsers exampleDiscoveryEnv 100000 exampleDiscovery))
               < length (discoveredUsers exampleDiscovery)
            then [D_userListUpdated (discoveredUsers (cleanupExpiredUsers exampleDiscoveryEnv 100000 exampleDiscovery))]
            else [])"
    by blast
  with users sane show ?thesis
    by (simp add: exampleDiscovery_def)
qed

subsection \<open>Sender: the progress arithmetic\<close>

lemma progressPercent_exact:
  assumes "0 \<le> sent" and "sent \<le> whole" and "0 < whole" and "whole * 100 < 2 ^ 63"
  shows "progressPercent sent whole = sent * 100 div whole"
proof -
  have le: "sent * 100 \<le> whole * 100" using assms(2) by simp
  have w64: "wrap64 (sent * 100) = sent * 100"
    using assms(1,4) le by (simp add: wrap64_def)
  have td: "truncDiv (sent * 100) whole = sent * 100 div whole"
    using assms(1,3) by (cases "sent = 0") (simp_all add: truncDiv_def)
  have q0: "0 \<le> sent * 100 div whole" using assms(1,3) by (simp add: pos_imp_zdiv_nonneg_iff)
  have "sent * 100 div whole \<le> (whole * 100) div whole"
    by (rule zdiv_mono1) (use le assms(3) in simp_all)
  moreover have "(whole * 100) div whole = 100" using assms(3) by simp
  ultimately have q100: "sent * 100 div whole \<le> 100" by simp
  from q0 q100 have "wrap32 (sent * 100 div whole) = sent * 100 div whole"
    by (simp add: wrap32_def)
  with w64 td show ?thesis by (simp add: progressPercent_def)
qed

lemma progressValues_append [simp]:
  "progressValues (xs @ ys) = progressValues xs @ progressValues ys"
  by (simp add: progressValues_def)

lemma progressValues_Nil [simp]: "progressValues [] = []"
  by (simp add: progressValues_def)

lemma progressValues_Cons [simp]:
  "progressValues (S_progressUpdated p # sigs) = p # progressValues sigs"
  "progressValues (S_transferAccepted # sigs) = progressValues sigs"
  "progressValues (S_transferRefused # sigs) = progressValues sigs"
  "progressValues (S_transferFinished # sigs) = progressValues sigs"
  "progressValues (S_transferError # sigs) = progressValues sigs"
  by (simp_all add: progressValues_def)

lemma progressValues_mem: "(p \<in> set (progressValues sigs)) = (S_progressUpdated p \<in> set sigs)"
  by (induction sigs) (auto simp: progressValues_def split: SenderSignal.splits)


subsection \<open>Sender: what holds throughout a transfer\<close>

lemma freshSignals_append [simp]:
  "s_emitted s' = s_emitted s @ xs \<Longrightarrow> freshSignals s s' = xs"
  by (simp add: freshSignals_def)

lemma freshSignals_same [simp]:
  "s_emitted s' = s_emitted s \<Longrightarrow> freshSignals s s' = []"
  by (simp add: freshSignals_def)

lemma senderInv_start:
  assumes "fileContents env path = Some bytes"
  shows "senderInv env path (Sender_sendFile env path ip port (newSender cfg))"
  using assms
  by (simp add: senderInv_def senderGlobal_def senderLocal_def Sender_sendFile_def newSender_def
      reset_def fileSize_def fileBytes_def)

lemma senderInv_reset:
  assumes "senderGlobal env path s"
  shows "senderInv env path (reset s)" and "stepFacts env path s (reset s)"
  using assms
  by (auto simp: senderInv_def senderGlobal_def senderLocal_def reset_def stepFacts_def fileSize_def)

lemma senderGlobal_error:
  assumes "senderGlobal env path s"
  shows "senderGlobal env path (s\<lparr>s_emitted := s_emitted s @ [S_transferError]\<rparr>)"
  using assms by (auto simp: senderGlobal_def)

lemma senderStep_timeouts:
  assumes "senderInv env path s" and "i = ConnectionTimeout \<or> i = ResponseTimeout"
  shows "senderInv env path (senderStep env s i) \<and> stepFacts env path s (senderStep env s i)"
proof -
  have g: "senderGlobal env path (s\<lparr>s_emitted := s_emitted s @ [S_transferError]\<rparr>)"
    using assms(1) by (simp add: senderInv_def senderGlobal_error)
  have "senderInv env path (reset (s\<lparr>s_emitted := s_emitted s @ [S_transferError]\<rparr>))"
    using senderInv_reset(1) [OF g] .
  moreover have "stepFacts env path s (reset (s\<lparr>s_emitted := s_emitted s @ [S_transferError]\<rparr>))"
    by (simp add: stepFacts_def reset_def)
  moreover have "stepFacts env path s s" by (simp add: stepFacts_def)
  ultimately show ?thesis using assms by auto
qed

lemma senderStep_disconnected:
  assumes "senderInv env path s"
  shows "senderInv env path (senderStep env s SocketDisconnected)
       \<and> stepFacts env path s (senderStep env s SocketDisconnected)"
proof (cases "s_socket s")
  case None
  then show ?thesis using assms by (simp add: stepFacts_def)
next
  case (Some sk)
  then show ?thesis using assms senderInv_reset [of env path s]
    by (simp add: senderInv_def)
qed

lemma senderStep_error:
  assumes "senderInv env path s"
  shows "senderInv env path (senderStep env s SocketError)
       \<and> stepFacts env path s (senderStep env s SocketError)"
proof (cases "s_socket s")
  case None
  then show ?thesis using assms by (simp add: stepFacts_def)
next
  case (Some sk)
  have "senderLocal env path (s\<lparr>s_emitted := s_emitted s @ [S_transferError]\<rparr>)"
    using assms by (simp add: senderInv_def senderLocal_def split: option.splits)
  then show ?thesis using Some assms senderGlobal_error [of env path s]
    by (simp add: senderInv_def stepFacts_def)
qed

lemma senderStep_connected:
  assumes "senderInv env path s"
  shows "senderInv env path (senderStep env s SocketConnected)
       \<and> stepFacts env path s (senderStep env s SocketConnected)"
  using assms
  by (auto simp: senderInv_def senderGlobal_def senderLocal_def stepFacts_def Sender_onConnected_def
      socketWrite_def Let_def split: option.splits if_splits)


lemma readChunk_first:
  "fst (readChunk env (f\<lparr>sf_isOpen := True, sf_pos := 0\<rparr>)) = take (bufferSize env) (fileBytes env (sf_path f))"
  "snd (readChunk env (f\<lparr>sf_isOpen := True, sf_pos := 0\<rparr>)) =
     f\<lparr>sf_isOpen := True, sf_pos := min (bufferSize env) (length (fileBytes env (sf_path f)))\<rparr>"
  by (simp_all add: readChunk_def Let_def min_def)

lemma senderStep_readyRead:
  assumes "senderInv env path s"
  shows "senderInv env path (senderStep env s (SocketReadyRead bytes))
       \<and> stepFacts env path s (senderStep env s (SocketReadyRead bytes))"
proof (cases "s_socket s")
  case None
  then show ?thesis using assms by (simp add: stepFacts_def)
next
  case (Some sk)
  note sk = Some
  show ?thesis
  proof (cases "ss_state sk = ConnectedState")
    case False
    then show ?thesis using sk assms by (simp add: stepFacts_def)
  next
    case True
    note conn = True
    show ?thesis
    proof (cases "s_file s")
      case None
      then show ?thesis using sk conn assms
        by (simp add: Sender_onReadyRead_def stepFacts_def senderInv_def senderLocal_def senderGlobal_def)
    next
      case (Some f)
      note f = Some
      let ?sk0 = "sk\<lparr>ss_readBuffer := ss_readBuffer sk @ bytes\<rparr>"
      let ?s0 = "s\<lparr>s_socket := Some ?sk0\<rparr>"
      let ?response = "trimmed (fst (readLine (ss_readBuffer ?sk0)))"
      have step: "senderStep env s (SocketReadyRead bytes) = Sender_onReadyRead env ?s0"
        using sk conn by simp
      have glob: "senderGlobal env path s" and path: "sf_path f = path"
        using assms sk f by (simp_all add: senderInv_def senderLocal_def)
      show ?thesis
      proof (cases "?response = ''OK''")
        case True
        note ok = True
        let ?s1 = "?s0\<lparr>responseTimer := False, s_emitted := s_emitted s @ [S_transferAccepted]\<rparr>"
        have g1: "senderGlobal env path ?s1" using glob by (auto simp: senderGlobal_def)
        show ?thesis
        proof (cases "sf_isOpen f \<or> \<not> canOpen env (sf_path f)")
          case True
          then have res: "Sender_onReadyRead env ?s0 = reset ?s1"
            using ok f by (simp add: Sender_onReadyRead_def Let_def)
          have "stepFacts env path s (reset ?s1)" by (simp add: stepFacts_def reset_def)
          with senderInv_reset(1) [OF g1] step res show ?thesis by simp
        next
          case False
          then have closed: "\<not> sf_isOpen f" by simp
          with conn have pre: "\<not> ss_streaming sk" "progressValues (s_emitted s) = []" "bytesSent s = 0"
            using assms sk f by (auto simp: senderInv_def senderLocal_def)
          from False ok f path pre glob show ?thesis
            unfolding step
            by (auto simp: Sender_onReadyRead_def Let_def readChunk_first socketWrite_def
                senderInv_def senderGlobal_def senderLocal_def stepFacts_def fileSize_def)
        qed
      next
        case False
        have loc: "senderLocal env path s" using assms by (simp add: senderInv_def)
        from False f path glob loc sk conn show ?thesis
          unfolding step
          by (auto simp: Sender_onReadyRead_def Let_def Sender_disconnectFromHost_def
              senderInv_def senderGlobal_def senderLocal_def stepFacts_def)
      qed
    qed
  qed
qed


lemma senderStep_bytesWritten:
  assumes "senderInv env path s" and "fileSize env path * 100 < 2 ^ 63"
  shows "senderInv env path (senderStep env s SocketBytesWritten)
       \<and> stepFacts env path s (senderStep env s SocketBytesWritten)"
proof (cases "s_socket s")
  case None
  then show ?thesis using assms by (simp add: stepFacts_def)
next
  case (Some sk)
  note sk = Some
  show ?thesis
  proof (cases "ss_streaming sk \<and> ss_state sk \<noteq> UnconnectedState")
    case False
    then show ?thesis using sk assms by (auto simp: stepFacts_def)
  next
    case True
    then have step: "senderStep env s SocketBytesWritten = Sender_onBytesWritten env s"
      using sk by simp
    show ?thesis
    proof (cases "s_file s")
      case None
      then show ?thesis using sk assms unfolding step
        by (simp add: Sender_onBytesWritten_def stepFacts_def)
    next
      case (Some f)
      note f = Some
      show ?thesis
      proof (cases "sf_isOpen f")
        case False
        then show ?thesis using sk f assms unfolding step
          by (simp add: Sender_onBytesWritten_def stepFacts_def)
      next
        case True
        note isopen = True
        let ?n = "length (fileBytes env path)"
        have n: "fileSize env path = int ?n" by (simp add: fileSize_def)
        from assms(1) sk f isopen have path: "sf_path f = path"
          and sent: "bytesSent s = int (sf_pos f)"
          and lo: "min (bufferSize env) ?n \<le> sf_pos f" and hi: "sf_pos f \<le> ?n"
          and below: "\<forall>p\<in>set (progressValues (s_emitted s)). p \<le> int (sf_pos f) * 100 div int ?n"
          by (simp_all add: senderInv_def senderLocal_def n)
        from assms(1) have sorted: "sorted (progressValues (s_emitted s))"
          and fin: "S_transferFinished \<in> set (s_emitted s) \<and> int (bufferSize env) < int ?n \<longrightarrow>
                      S_progressUpdated 100 \<in> set (s_emitted s)"
          and mark: "int (bufferSize env) < bytesSent s \<longrightarrow>
                      S_progressUpdated (bytesSent s * 100 div int ?n) \<in> set (s_emitted s)"
          by (simp_all add: senderInv_def senderGlobal_def n)
        show ?thesis
        proof (cases "atEnd env f")
          case True
          then have pos: "sf_pos f = ?n" using hi path by (simp add: atEnd_def)
          have res: "Sender_onBytesWritten env s =
              s\<lparr>s_emitted := s_emitted s @ [S_transferFinished],
                s_file := Some (f\<lparr>sf_isOpen := False\<rparr>),
                s_socket := Some (Sender_disconnectFromHost sk)\<rparr>"
            using sk f isopen True by (simp add: Sender_onBytesWritten_def)
          have hundred: "int (bufferSize env) < int ?n \<longrightarrow> S_progressUpdated 100 \<in> set (s_emitted s)"
          proof
            assume big: "int (bufferSize env) < int ?n"
            then have "int ?n \<noteq> 0" by auto
            then have "int ?n * 100 div int ?n = 100" by (rule nonzero_mult_div_cancel_left)
            with mark sent pos big show "S_progressUpdated 100 \<in> set (s_emitted s)" by simp
          qed
          have closing: "ss_state (Sender_disconnectFromHost sk) = ClosingState"
            "ss_streaming (Sender_disconnectFromHost sk)"
            using \<open>ss_streaming sk \<and> ss_state sk \<noteq> UnconnectedState\<close>
            by (simp_all add: Sender_disconnectFromHost_def)
          from assms(1) hundred closing path sent pos show ?thesis
            unfolding step res
            by (simp add: senderInv_def senderGlobal_def senderLocal_def stepFacts_def n)
        next
          case False
          then have more: "sf_pos f < ?n" using path by (simp add: atEnd_def)
          let ?len = "min (bufferSize env) (?n - sf_pos f)"
          let ?pos' = "sf_pos f + ?len"
          let ?p' = "int ?pos' * 100 div int ?n"
          have chunk: "length (fst (readChunk env f)) = ?len"
            "snd (readChunk env f) = f\<lparr>sf_pos := ?pos'\<rparr>"
            using path by (simp_all add: readChunk_def Let_def min_def)
          have pos'_le: "?pos' \<le> ?n" using more by simp
          have npos: "0 < int ?n" using more by auto
          have pct: "progressPercent (int ?pos') (int ?n) = ?p'"
            using pos'_le npos assms(2) by (intro progressPercent_exact) (simp_all add: n)
          have res: "Sender_onBytesWritten env s =
              s\<lparr>bytesSent := int ?pos', s_file := Some (f\<lparr>sf_pos := ?pos'\<rparr>),
                s_emitted := s_emitted s @ [S_progressUpdated ?p'],
                s_socket := Some (fst (socketWrite (fst (readChunk env f)) sk))\<rparr>"
            using sk f isopen False sent chunk pct path
            by (simp add: Sender_onBytesWritten_def Let_def n)
          have streaming: "ss_streaming (fst (socketWrite bs sk))" for bs
            using \<open>ss_streaming sk \<and> ss_state sk \<noteq> UnconnectedState\<close>
            by (simp add: socketWrite_def)
          have mono: "int (sf_pos f) * 100 div int ?n \<le> ?p'"
            by (rule zdiv_mono1) (use npos in simp_all)
          with below have below': "\<forall>p\<in>set (progressValues (s_emitted s)). p \<le> ?p'"
            by fastforce
          have multi: "\<not> int ?n \<le> int (bufferSize env)" using lo more by simp
          have g: "senderGlobal env path (Sender_onBytesWritten env s)"
            unfolding res using sorted fin below' multi pos'_le
            by (simp add: senderGlobal_def n sorted_append)
          have l: "senderLocal env path (Sender_onBytesWritten env s)"
            unfolding res using path streaming lo pos'_le below' isopen
            by (simp add: senderLocal_def n)
          have sf: "stepFacts env path s (Sender_onBytesWritten env s)"
            unfolding res by (simp add: stepFacts_def n)
          from g l sf show ?thesis unfolding step by (simp add: senderInv_def)
        qed
      qed
    qed
  qed
qed

lemma senderStep_inv:
  assumes "senderInv env path s" and "fileSize env path * 100 < 2 ^ 63"
  shows "senderInv env path (senderStep env s i) \<and> stepFacts env path s (senderStep env s i)"
proof (cases i)
  case SocketConnected
  then show ?thesis using senderStep_connected [OF assms(1)] by simp
next
  case (SocketReadyRead bytes)
  then show ?thesis using senderStep_readyRead [OF assms(1)] by simp
next
  case SocketBytesWritten
  then show ?thesis using senderStep_bytesWritten [OF assms] by simp
next
  case SocketDisconnected
  then show ?thesis using senderStep_disconnected [OF assms(1)] by simp
next
  case SocketError
  then show ?thesis using senderStep_error [OF assms(1)] by simp
next
  case ConnectionTimeout
  then show ?thesis using senderStep_timeouts [OF assms(1)] by blast
next
  case ResponseTimeout
  then show ?thesis using senderStep_timeouts [OF assms(1)] by blast
qed

lemma senderRun_inv:
  assumes "senderInv env path s" and "fileSize env path * 100 < 2 ^ 63"
  shows "senderInv env path (senderRun env s ins)"
  using assms(1) unfolding senderRun_def
proof (induction ins arbitrary: s)
  case Nil
  then show ?case by simp
next
  case (Cons i ins)
  from senderStep_inv [OF Cons.prems assms(2)] have "senderInv env path (senderStep env s i)" by blast
  from Cons.IH [OF this] show ?case by simp
qed


subsection \<open>Sender: progress\<close>

text \<open>
  C3, as the code has it. Take a transfer of a non-empty source file of fewer than
  \<open>2^63 / 100\<close> bytes, started by \<^verbatim>\<open>sendFile\<close> on a new Sender, after any inputs
  \<open>ins\<close>, and one more input \<open>i\<close>. The progress values emitted so far are in
  non-decreasing order. A progress value emitted by the step is
  \<open>bytesSent * 100 div fileSize\<close>; when it is 100, and when the step emits
  \<^verbatim>\<open>transferFinished\<close>, \<open>bytesSent\<close> is the file size. The first chunk is sent on
  \<^verbatim>\<open>OK\<close> without a progress signal: a file of more than one chunk has progress
  100 emitted once \<open>bytesSent\<close> is the file size, and so before
  \<^verbatim>\<open>transferFinished\<close>, but a file that fits one chunk is sent and finished with
  no progress signal at all.
\<close>

theorem C3_sender_progress:
  assumes "fileContents env path = Some bytes" and "bytes \<noteq> []"
    and "int (length bytes) * 100 < 2 ^ 63"
    and "s = senderRun env (Sender_sendFile env path ip port (newSender cfg)) ins"
    and "s' = senderStep env s i"
  shows "sorted (progressValues (s_emitted s'))
       \<and> (\<forall>p. S_progressUpdated p \<in> set (freshSignals s s') \<longrightarrow>
              p = bytesSent s' * 100 div int (length bytes))
       \<and> (S_progressUpdated 100 \<in> set (freshSignals s s') \<longrightarrow> bytesSent s' = int (length bytes))
       \<and> (S_transferFinished \<in> set (freshSignals s s') \<longrightarrow> bytesSent s' = int (length bytes))
       \<and> (bufferSize env < length bytes \<and>
            (bytesSent s' = int (length bytes) \<or> S_transferFinished \<in> set (s_emitted s')) \<longrightarrow>
              S_progressUpdated 100 \<in> set (s_emitted s'))
       \<and> (length bytes \<le> bufferSize env \<longrightarrow> progressValues (s_emitted s') = [])
       \<and> 0 \<le> bytesSent s' \<and> bytesSent s' \<le> int (length bytes)"
proof -
  have n: "fileSize env path = int (length bytes)"
    using assms(1) by (simp add: fileSize_def fileBytes_def)
  have bound: "fileSize env path * 100 < 2 ^ 63" using assms(3) n by simp
  have "senderInv env path s"
    unfolding assms(4) by (rule senderRun_inv [OF senderInv_start [OF assms(1)] bound])
  from senderStep_inv [OF this bound, of i]
  have inv: "senderInv env path s'" and facts: "stepFacts env path s s'"
    unfolding assms(5) by simp_all
  from inv have g: "senderGlobal env path s'" by (simp add: senderInv_def)
  have range: "0 \<le> bytesSent s'" "bytesSent s' \<le> int (length bytes)"
    using g n by (simp_all add: senderGlobal_def)
  have npos: "0 < int (length bytes)" using assms(2) by simp
  have exact: "\<forall>p. S_progressUpdated p \<in> set (freshSignals s s') \<longrightarrow>
              p = bytesSent s' * 100 div int (length bytes)"
    using facts n by (simp add: stepFacts_def)
  have full: "bytesSent s' = int (length bytes)"
    if "S_progressUpdated 100 \<in> set (freshSignals s s')"
  proof -
    from exact that have d: "bytesSent s' * 100 div int (length bytes) = 100" by simp
    have "bytesSent s' * 100 - bytesSent s' * 100 mod int (length bytes) =
        bytesSent s' * 100 div int (length bytes) * int (length bytes)"
      by (simp add: minus_mod_eq_div_mult)
    then have "bytesSent s' * 100 - bytesSent s' * 100 mod int (length bytes) =
        100 * int (length bytes)"
      unfolding d .
    moreover have "0 \<le> bytesSent s' * 100 mod int (length bytes)"
      using npos by simp
    ultimately have "100 * int (length bytes) \<le> bytesSent s' * 100" by linarith
    with range show ?thesis by simp
  qed
  have hundred: "S_progressUpdated 100 \<in> set (s_emitted s')"
    if "bufferSize env < length bytes"
      and "bytesSent s' = int (length bytes) \<or> S_transferFinished \<in> set (s_emitted s')"
  proof -
    have "int (length bytes) * 100 div int (length bytes) = 100"
      using npos by simp
    with that g n show ?thesis by (auto simp: senderGlobal_def)
  qed
  have single: "length bytes \<le> bufferSize env \<longrightarrow> progressValues (s_emitted s') = []"
    using g n by (simp add: senderGlobal_def)
  have fin: "S_transferFinished \<in> set (freshSignals s s') \<longrightarrow> bytesSent s' = int (length bytes)"
    using facts n by (simp add: stepFacts_def)
  from g exact full fin hundred single range show ?thesis
    by (simp add: senderGlobal_def)
qed



subsection \<open>Sender: two transfers of a file of 10 bytes, step by step\<close>

lemma example_sendFile:
  "Sender_sendFile (oneFile bytes chunk) ''/tmp/a.txt'' ''10.0.0.2'' 5556 (newSender 5556) =
   senderState ConnectingState [] False False 0 True False []"
  by (simp add: Sender_sendFile_def newSender_def reset_def oneFile_def senderState_def)

lemma example_connected:
  "senderStep (oneFile ''0123456789'' chunk)
     (senderState ConnectingState [] False False 0 True False []) SocketConnected =
   senderState ConnectedState ''a.txt|10\<newline>'' False False 0 False True []"
  by (simp add: senderState_def Sender_onConnected_def socketWrite_def fileSize_def fileBytes_def
      oneFile_def QFileInfo_fileName_def QString_number_def natDigits.simps)

lemma example_ok:
  "senderStep (oneFile ''0123456789'' 4)
     (senderState ConnectedState written False False 0 False True [])
     (SocketReadyRead ''OK\<newline>'') =
   senderState ConnectedState (written @ ''0123'') True True 4 False False [S_transferAccepted]"
  "senderStep (oneFile ''0123456789'' 65536)
     (senderState ConnectedState written False False 0 False True [])
     (SocketReadyRead ''OK\<newline>'') =
   senderState ConnectedState (written @ ''0123456789'') True True 10 False False [S_transferAccepted]"
  by (simp_all add: senderState_def Sender_onReadyRead_def socketWrite_def readChunk_def fileBytes_def
      oneFile_def readLine_def trimmed_def isSpace_def Let_def)

lemma example_chunk:
  "senderStep (oneFile ''0123456789'' 4)
     (senderState ConnectedState written True True 4 False False sigs) SocketBytesWritten =
   senderState ConnectedState (written @ ''4567'') True True 8 False False
     (sigs @ [S_progressUpdated 80])"
  "senderStep (oneFile ''0123456789'' 4)
     (senderState ConnectedState written True True 8 False False sigs) SocketBytesWritten =
   senderState ConnectedState (written @ ''89'') True True 10 False False
     (sigs @ [S_progressUpdated 100])"
  by (simp_all add: senderState_def Sender_onBytesWritten_def socketWrite_def readChunk_def atEnd_def
      fileBytes_def fileSize_def oneFile_def Let_def progressPercent_def wrap64_def wrap32_def
      truncDiv_def)

lemma example_finished:
  "senderStep (oneFile ''0123456789'' chunk)
     (senderState ConnectedState written True True 10 False False sigs) SocketBytesWritten =
   senderState ClosingState written True False 10 False False (sigs @ [S_transferFinished])"
  by (simp add: senderState_def Sender_onBytesWritten_def Sender_disconnectFromHost_def atEnd_def
      fileBytes_def oneFile_def)

theorem C3_witness:
  "senderRun (oneFile ''0123456789'' 4)
      (Sender_sendFile (oneFile ''0123456789'' 4) ''/tmp/a.txt'' ''10.0.0.2'' 5556 (newSender 5556))
      [SocketConnected, SocketReadyRead ''OK\<newline>'', SocketBytesWritten, SocketBytesWritten,
       SocketBytesWritten] =
     senderState ClosingState ''a.txt|10\<newline>0123456789'' True False 10 False False
       [S_transferAccepted, S_progressUpdated 80, S_progressUpdated 100, S_transferFinished]
   \<and> bytesSent (senderRun (oneFile ''0123456789'' 4)
      (Sender_sendFile (oneFile ''0123456789'' 4) ''/tmp/a.txt'' ''10.0.0.2'' 5556 (newSender 5556))
      [SocketConnected, SocketReadyRead ''OK\<newline>'', SocketBytesWritten, SocketBytesWritten,
       SocketBytesWritten]) = int (length ''0123456789'')"
proof -
  let ?env = "oneFile ''0123456789'' 4"
  let ?start = "Sender_sendFile ?env ''/tmp/a.txt'' ''10.0.0.2'' 5556 (newSender 5556)"
  let ?ins = "[SocketConnected, SocketReadyRead ''OK\<newline>'', SocketBytesWritten, SocketBytesWritten]"
  let ?before = "senderRun ?env ?start ?ins"
  let ?after = "senderStep ?env ?before SocketBytesWritten"
  have src: "fileContents ?env ''/tmp/a.txt'' = Some ''0123456789''" by (simp add: oneFile_def)
  have nonempty: "''0123456789'' \<noteq> []" by simp
  have small: "int (length ''0123456789'') * 100 < 2 ^ 63" by simp
  have s4: "?before = senderState ConnectedState ''a.txt|10\<newline>0123456789'' True True 10
      False False [S_transferAccepted, S_progressUpdated 80, S_progressUpdated 100]"
    by (simp add: senderRun_def example_sendFile example_connected example_ok example_chunk
        del: senderStep.simps)
  have s5: "?after = senderState ClosingState ''a.txt|10\<newline>0123456789'' True False 10
      False False [S_transferAccepted, S_progressUpdated 80, S_progressUpdated 100, S_transferFinished]"
    unfolding s4 by (simp add: example_finished del: senderStep.simps)
  have fresh: "S_transferFinished \<in> set (freshSignals ?before ?after)"
    unfolding s5 unfolding s4 by (simp add: freshSignals_def senderState_def)
  from C3_sender_progress [OF src nonempty small refl refl, where ip = "''10.0.0.2''" and port = 5556
      and cfg = 5556 and ins = ?ins and i = SocketBytesWritten] fresh
  have sent: "bytesSent ?after = int (length ''0123456789'')" by blast
  have run: "senderRun ?env ?start (?ins @ [SocketBytesWritten]) = ?after"
    by (simp add: senderRun_def del: senderStep.simps)
  from s5 sent show ?thesis unfolding run [symmetric] by simp
qed

text \<open>
  C3 as stated fails for a file that fits one chunk: a file of 10 bytes with the
  default buffer of 65536 bytes is handed to the socket whole on \<^verbatim>\<open>OK\<close>, and the
  next \<^verbatim>\<open>bytesWritten\<close> emits \<^verbatim>\<open>transferFinished\<close> with \<open>bytesSent = 10\<close>; no
  progress signal was emitted, so progress never reached 100 although the entire
  file was transmitted.
\<close>

theorem C3_counterexample:
  "senderRun (oneFile ''0123456789'' 65536)
      (Sender_sendFile (oneFile ''0123456789'' 65536) ''/tmp/a.txt'' ''10.0.0.2'' 5556 (newSender 5556))
      [SocketConnected, SocketReadyRead ''OK\<newline>'', SocketBytesWritten] =
     senderState ClosingState ''a.txt|10\<newline>0123456789'' True False 10 False False
       [S_transferAccepted, S_transferFinished]
   \<and> bytesSent (senderState ClosingState ''a.txt|10\<newline>0123456789'' True False 10
        False False [S_transferAccepted, S_transferFinished]) = 10
   \<and> S_progressUpdated 100 \<notin> set [S_transferAccepted, S_transferFinished]"
  by (simp add: senderRun_def example_sendFile example_connected example_ok example_finished
      del: senderStep.simps) (simp add: senderState_def)

end
